theory Spec2Isabelle
  imports Complex_Main "HOL-Library.AList" "HOL-Library.List_Lexorder"
begin

section \<open>Strings, dates and timestamps\<close>

text \<open>
  A Python \<open>str\<close> is a sequence of Unicode code points and \<open>len\<close> counts code points, so
  a string is modelled as a list of code points (natural numbers). ASCII literals are
  written through \<open>ascii\<close>; the source's Japanese literals are spelled out as code points.
\<close>

type_synonym pystr = "nat list"

definition ascii :: "string \<Rightarrow> pystr" where
  "ascii s = map of_char s"

text \<open>
  A \<open>datetime.date\<close> is modelled by its proleptic Gregorian ordinal (\<open>date.toordinal()\<close>,
  0001-01-01 is day 1), so \<open>timedelta(days=n)\<close> arithmetic is integer addition. The finite
  range of the library type (years 1 to 9999) is not modelled. A timestamp
  (\<open>create_time\<close>, seconds since the epoch, a JSON number) is a real number.
\<close>

type_synonym date = int

definition weekday :: "date \<Rightarrow> int" where
  \<comment> \<open>\<open>date.weekday()\<close>: Monday is 0, Sunday is 6.\<close>
  "weekday d = (d + 6) mod 7"

section \<open>Weekly digest scheduler\<close>

text \<open>
  The "next Saturday" computation, written three times in the source (in
  \<open>should_create_weekly_report\<close> of daily\_chatgpt\_summary.py, and twice in \<open>main\<close> of
  chatgpt\_to\_notion.py):
  \<^verbatim>\<open>
    last_date_weekday = last_date.weekday()
    next_saturday = last_date - timedelta(days=last_date_weekday) + timedelta(days=5)
    if next_saturday <= last_date:
        next_saturday += timedelta(days=7)
  \<close>
\<close>

definition next_saturday :: "date \<Rightarrow> date" where
  "next_saturday last_date =
     (let last_date_weekday = weekday last_date;
          ns = last_date - last_date_weekday + 5
      in if ns \<le> last_date then ns + 7 else ns)"

definition get_latest_friday_date :: "date \<Rightarrow> date" where
  "get_latest_friday_date today_date =
     (let days_since_monday = weekday today_date;
          monday = today_date - days_since_monday;
          friday = monday + 4
      in if today_date < friday then friday - 7 else friday)"

definition has_sufficient_weekly_data :: "date \<Rightarrow> bool" where
  \<comment> \<open>Computes and prints the latest Friday, then always returns \<open>True\<close>.\<close>
  "has_sufficient_weekly_data today_date =
     (let latest_friday = get_latest_friday_date today_date in True)"

definition should_create_weekly_report :: "date \<Rightarrow> date option \<Rightarrow> bool" where
  \<comment> \<open>daily\_chatgpt\_summary.py; \<open>today_date\<close> is \<open>jst_today()\<close>, the second argument is
      what \<open>get_last_weekly_report_date\<close> returned (\<open>None\<close> or an empty string is absent).\<close>
  "should_create_weekly_report today_date last_weekly_date =
     (case last_weekly_date of
        Some last_date \<Rightarrow>
          (if today_date \<ge> next_saturday last_date then True else False)
      | None \<Rightarrow> has_sufficient_weekly_data today_date)"

definition main_should_create :: "date \<Rightarrow> date option \<Rightarrow> bool" where
  \<comment> \<open>The same decision as inlined in \<open>main\<close> of chatgpt\_to\_notion.py.\<close>
  "main_should_create today_date last_weekly_date =
     (case last_weekly_date of
        Some last_date \<Rightarrow> today_date \<ge> next_saturday last_date
      | None \<Rightarrow> has_sufficient_weekly_data today_date)"

text \<open>
  The weekly part of \<open>main\<close> in chatgpt\_to\_notion.py. Its collaborators are parameters:
  \<open>weekly_report\<close> is whether \<open>create_weekly_report\<close> returned a non-empty report, and
  \<open>page\<close> is the result of \<open>notion_create_weekly_page\<close>: it raised, it returned a page
  without a url, or it returned a page with a url. The state is the persisted
  \<open>last_weekly_report_date\<close>.
\<close>

datatype page_result = PageRaised | PageNoUrl | PageUrl

datatype weekly_outcome =
    NotDue
  | NoReport
  | SkippedFriday
  | Filed date
  | WeeklyExit

definition registration_date_of :: "date \<Rightarrow> date option \<Rightarrow> date option" where
  \<comment> \<open>The filing date; \<open>None\<close> is the early \<open>return\<close> when today is the week's Friday.\<close>
  "registration_date_of today_date original_last_weekly_date =
     (case original_last_weekly_date of
        Some last_date \<Rightarrow> Some (next_saturday last_date + 1)
      | None \<Rightarrow>
          (let days_since_monday = weekday today_date;
               monday = today_date - days_since_monday;
               friday = monday + 4
           in if today_date = friday then None else Some (friday + 2)))"

definition main_weekly ::
  "date \<Rightarrow> bool \<Rightarrow> page_result \<Rightarrow> date option \<Rightarrow> weekly_outcome \<times> date option" where
  "main_weekly today_date weekly_report page last_weekly_date =
     (if \<not> main_should_create today_date last_weekly_date then (NotDue, last_weekly_date)
      else if \<not> weekly_report then (NoReport, last_weekly_date)
      else
        (case registration_date_of today_date last_weekly_date of
           None \<Rightarrow> (SkippedFriday, last_weekly_date)
         | Some registration_date \<Rightarrow>
             (case page of
                PageUrl \<Rightarrow> (Filed registration_date, Some registration_date)
              | PageNoUrl \<Rightarrow> (WeeklyExit, last_weekly_date)
              | PageRaised \<Rightarrow> (WeeklyExit, last_weekly_date))))"

text \<open>
  The weekly part of \<open>main\<close> in daily\_chatgpt\_summary.py. The page is titled and dated
  with \<open>today\<close>, \<open>create_page\<close> either raises or returns, and
  \<open>save_last_weekly_report_date(workdir, today)\<close> follows without a further check.
\<close>

definition summary_main_weekly ::
  "date \<Rightarrow> bool \<Rightarrow> page_result \<Rightarrow> date option \<Rightarrow> weekly_outcome \<times> date option" where
  "summary_main_weekly today_date weekly_report page last_weekly_date =
     (if \<not> main_should_create today_date last_weekly_date then (NotDue, last_weekly_date)
      else if \<not> weekly_report then (NoReport, last_weekly_date)
      else
        (case page of
           PageRaised \<Rightarrow> (WeeklyExit, last_weekly_date)
         | _ \<Rightarrow> (Filed today_date, Some today_date)))"

section \<open>String helpers\<close>

definition py_isspace :: "nat \<Rightarrow> bool" where
  \<comment> \<open>The code points for which \<open>str.isspace()\<close> holds; \<open>str.strip()\<close> removes them.\<close>
  "py_isspace c \<longleftrightarrow>
     (9 \<le> c \<and> c \<le> 13) \<or> (28 \<le> c \<and> c \<le> 32) \<or> c = 133 \<or> c = 160 \<or> c = 5760
     \<or> (8192 \<le> c \<and> c \<le> 8202) \<or> c = 8232 \<or> c = 8233 \<or> c = 8239 \<or> c = 8287
     \<or> c = 12288"

definition strip :: "pystr \<Rightarrow> pystr" where
  "strip s = rev (dropWhile py_isspace (rev (dropWhile py_isspace s)))"

fun join :: "pystr \<Rightarrow> pystr list \<Rightarrow> pystr" where
  \<comment> \<open>\<open>sep.join(xs)\<close>\<close>
  "join sep [] = []"
| "join sep [x] = x"
| "join sep (x # y # ys) = x @ sep @ join sep (y # ys)"

fun split_nl :: "pystr \<Rightarrow> pystr list" where
  \<comment> \<open>\<open>s.split('\n')\<close>: one more piece than there are newlines.\<close>
  "split_nl [] = [[]]"
| "split_nl (c # cs) =
     (if c = 10 then [] # split_nl cs
      else (case split_nl cs of l # ls \<Rightarrow> (c # l) # ls | [] \<Rightarrow> [[c]]))"

fun digits :: "nat \<Rightarrow> pystr" where
  "digits n = (if n < 10 then [48 + n] else digits (n div 10) @ [48 + n mod 10])"

definition str_int :: "int \<Rightarrow> pystr" where
  \<comment> \<open>An integer formatted in an f-string.\<close>
  "str_int i = (if i < 0 then 45 # digits (nat (- i)) else digits (nat i))"

definition truthy :: "pystr option \<Rightarrow> bool" where
  \<comment> \<open>Truthiness of a value that is a string or \<open>None\<close>/absent.\<close>
  "truthy v = (case v of None \<Rightarrow> False | Some s \<Rightarrow> s \<noteq> [])"

section \<open>Export records and the event normalizer\<close>

text \<open>
  A conversation record of the export, with the keys \<open>iter_messages\<close> reads. A key that
  is absent or \<open>None\<close> is \<open>None\<close>. \<open>mapping\<close> is a dictionary from node id to node, kept
  in its iteration order; a node holds a message or none. A message's \<open>content\<close> is a
  dictionary with \<open>parts\<close> (a list whose elements are strings or something else), a plain
  string, or anything else (absent, \<open>None\<close>, a dictionary without \<open>parts\<close>), from which no
  text is read.
\<close>

datatype part = PartStr pystr | PartOther

datatype content = ContentParts "part list" | ContentStr pystr | ContentOther

record message =
  msg_role :: "pystr option"
  msg_content :: content
  msg_create_time :: "real option"
  msg_id :: "pystr option"

record conversation =
  conv_id_key :: "pystr option"
  conv_conversation_id :: "pystr option"
  conv_title :: "pystr option"
  conv_mapping :: "(pystr \<times> message option) list"
  conv_messages :: "message list"

record event =
  ev_conv_id :: pystr
  ev_role :: pystr
  ev_text :: pystr
  ev_ts :: "real option"
  ev_mid :: pystr
  ev_title :: pystr

definition conv_key :: "conversation \<Rightarrow> pystr" where
  \<comment> \<open>\<open>conv.get("id") or conv.get("conversation_id") or "(unknown)"\<close>\<close>
  "conv_key conv =
     (if truthy (conv_id_key conv) then the (conv_id_key conv)
      else if truthy (conv_conversation_id conv) then the (conv_conversation_id conv)
      else ascii ''(unknown)'')"

definition title_of :: "conversation \<Rightarrow> pystr" where
  "title_of conv = (if truthy (conv_title conv) then the (conv_title conv) else [])"

fun part_strings :: "part list \<Rightarrow> pystr list" where
  "part_strings [] = []"
| "part_strings (PartStr s # ps) = s # part_strings ps"
| "part_strings (PartOther # ps) = part_strings ps"

fun content_text :: "content \<Rightarrow> pystr option" where
  "content_text (ContentParts ps) = Some (join [10] (part_strings ps))"
| "content_text (ContentStr s) = Some s"
| "content_text ContentOther = None"

text \<open>
  The mapping branch of \<open>iter_messages\<close>, one node: a node without a message, without a
  role or with falsy content is skipped; a message without an \<open>id\<close> gets
  \<open>f"mapping-{node_id}"\<close>.
\<close>

definition mapping_event ::
  "pystr \<Rightarrow> pystr \<Rightarrow> pystr \<times> message option \<Rightarrow> event list" where
  "mapping_event conv_id title kv =
     (case snd kv of
        None \<Rightarrow> []
      | Some msg \<Rightarrow>
          (if \<not> truthy (msg_role msg) \<or> \<not> truthy (content_text (msg_content msg)) then []
           else
             [\<lparr>ev_conv_id = conv_id, ev_role = the (msg_role msg),
               ev_text = the (content_text (msg_content msg)),
               ev_ts = msg_create_time msg,
               ev_mid = (if truthy (msg_id msg) then the (msg_id msg)
                         else ascii ''mapping-'' @ fst kv),
               ev_title = title\<rparr>]))"

text \<open>
  The fallback branch, one message of the \<open>messages\<close> array: a message without an \<open>id\<close>
  gets \<open>f"legacy-{hash((role,text,ts))}"\<close>. The interpreter's \<open>hash\<close> is a parameter.
\<close>

definition legacy_event ::
  "(pystr \<times> pystr \<times> real option \<Rightarrow> int) \<Rightarrow> pystr \<Rightarrow> pystr \<Rightarrow> message \<Rightarrow> event list" where
  "legacy_event hash conv_id title m =
     (let role = msg_role m; text = content_text (msg_content m); ts = msg_create_time m
      in if truthy role \<and> truthy text then
           [\<lparr>ev_conv_id = conv_id, ev_role = the role, ev_text = the text, ev_ts = ts,
             ev_mid = (if truthy (msg_id m) then the (msg_id m)
                       else ascii ''legacy-'' @ str_int (hash (the role, the text, ts))),
             ev_title = title\<rparr>]
         else [])"

definition iter_messages ::
  "(pystr \<times> pystr \<times> real option \<Rightarrow> int) \<Rightarrow> conversation \<Rightarrow> event list" where
  "iter_messages hash conv =
     (let conv_id = conv_key conv; title = title_of conv
      in if conv_mapping conv \<noteq> [] then
           concat (map (mapping_event conv_id title) (conv_mapping conv))
         else concat (map (legacy_event hash conv_id title) (conv_messages conv)))"

section \<open>Checkpoint state and the day bucketer\<close>

text \<open>
  \<open>state.json\<close>: the version, the per-conversation high-water mark and the
  per-conversation list of seen message ids, both dictionaries in their key order.
\<close>

record state =
  version :: int
  conv_hwm :: "(pystr \<times> real) list"
  seen :: "(pystr \<times> pystr list) list"

definition load_state :: "state option \<Rightarrow> state" where
  \<comment> \<open>The argument is the content of the file, \<open>None\<close> when it does not exist.\<close>
  "load_state file =
     (case file of Some st \<Rightarrow> st | None \<Rightarrow> \<lparr>version = 1, conv_hwm = [], seen = []\<rparr>)"

definition hwm_get :: "(pystr \<times> real) list \<Rightarrow> pystr \<Rightarrow> real" where
  \<comment> \<open>\<open>hwm.get(conv_id, -1)\<close>\<close>
  "hwm_get hwm conv_id = (case map_of hwm conv_id of Some ts \<Rightarrow> ts | None \<Rightarrow> - 1)"

definition seen_get :: "(pystr \<times> pystr list) list \<Rightarrow> pystr \<Rightarrow> pystr list" where
  \<comment> \<open>\<open>seen.get(conv_id, [])\<close>\<close>
  "seen_get sn conv_id = (case map_of sn conv_id of Some ids \<Rightarrow> ids | None \<Rightarrow> [])"

text \<open>
  What the run takes from its environment and from the library: \<open>jst_today\<close> is
  what \<open>jst_today()\<close> returns; \<open>jst_date ts\<close> is
  \<open>datetime.fromtimestamp(ts, tz=timezone.utc).astimezone(JST).date()\<close>, \<open>None\<close> when it
  raises; \<open>isoformat\<close> is \<open>date.isoformat\<close>; \<open>py_hash\<close> is the interpreter's \<open>hash\<close>.
\<close>

record env =
  jst_today :: pystr
  jst_date :: "real \<Rightarrow> date option"
  isoformat :: "date \<Rightarrow> pystr"
  py_hash :: "pystr \<times> pystr \<times> real option \<Rightarrow> int"

definition ts_to_day :: "env \<Rightarrow> date option \<Rightarrow> real option \<Rightarrow> pystr option" where
  \<comment> \<open>\<open>from_date\<close> is \<open>datetime.strptime(from_date_str, "%Y-%m-%d").date()\<close>, \<open>None\<close> when
      it raises; either exception is caught and gives today.\<close>
  "ts_to_day e from_date ts =
     (case ts of
        None \<Rightarrow> Some (jst_today e)
      | Some t \<Rightarrow>
          (case jst_date e t of
             None \<Rightarrow> Some (jst_today e)
           | Some date_obj \<Rightarrow>
               (case from_date of
                  None \<Rightarrow> Some (jst_today e)
                | Some fd \<Rightarrow> if date_obj \<ge> fd then Some (isoformat e date_obj) else None)))"

definition passes_checkpoint :: "real \<Rightarrow> pystr list \<Rightarrow> real option \<Rightarrow> pystr \<Rightarrow> bool" where
  \<comment> \<open>The two \<open>continue\<close> guards at the head of the message loop of \<open>build_daily_raw\<close>.\<close>
  "passes_checkpoint last_ts seen_set ts mid =
     (if ts \<noteq> None \<and> the ts \<le> last_ts then False
      else if mid \<in> set seen_set then False
      else True)"

definition bucket_line :: "event \<Rightarrow> pystr" where
  "bucket_line ev =
     (let role = ev_role ev;
          prefix = (if role = ascii ''user'' then [12518, 12540, 12470, 12540]
                    else if role = ascii ''assistant''
                    then [12450, 12471, 12473, 12479, 12531, 12488]
                    else role)
      in ascii ''['' @ prefix @ ascii ''] '' @ ev_title ev @ [65372] @ strip (ev_text ev))"

fun bucket_append ::
  "(pystr \<times> pystr list) list \<Rightarrow> pystr \<Rightarrow> pystr \<Rightarrow> (pystr \<times> pystr list) list" where
  \<comment> \<open>\<open>buckets[day].append(line)\<close> on a \<open>defaultdict(list)\<close>\<close>
  "bucket_append [] day line = [(day, [line])]"
| "bucket_append ((d, ls) # bs) day line =
     (if d = day then (d, ls @ [line]) # bs else (d, ls) # bucket_append bs day line)"

definition set_add :: "pystr \<Rightarrow> pystr list \<Rightarrow> pystr list" where
  \<comment> \<open>\<open>new_seen.add(mid)\<close>; the set is kept as a duplicate-free list.\<close>
  "set_add x xs = (if x \<in> set xs then xs else xs @ [x])"

type_synonym loop_state = "(pystr \<times> pystr list) list \<times> pystr list \<times> real"

definition event_step ::
  "env \<Rightarrow> date option \<Rightarrow> real \<Rightarrow> pystr list \<Rightarrow> loop_state \<Rightarrow> event \<Rightarrow> loop_state" where
  "event_step e from_date last_ts seen_set acc ev =
     (case acc of (buckets, new_seen, max_ts) \<Rightarrow>
        if \<not> passes_checkpoint last_ts seen_set (ev_ts ev) (ev_mid ev) then acc
        else
          (case ts_to_day e from_date (ev_ts ev) of
             None \<Rightarrow> acc
           | Some day \<Rightarrow>
               (bucket_append buckets day (bucket_line ev),
                set_add (ev_mid ev) new_seen,
                (if ev_ts ev \<noteq> None \<and> the (ev_ts ev) > max_ts then the (ev_ts ev)
                 else max_ts))))"

type_synonym progress = "(pystr \<times> pystr list \<times> real) list"

definition conv_step ::
  "env \<Rightarrow> date option \<Rightarrow> state \<Rightarrow> (pystr \<times> pystr list) list \<times> progress \<Rightarrow> conversation
     \<Rightarrow> (pystr \<times> pystr list) list \<times> progress" where
  "conv_step e from_date st acc conv =
     (case acc of (buckets, prog) \<Rightarrow>
        (let conv_id = conv_key conv;
             last_ts = hwm_get (conv_hwm st) conv_id;
             seen_set = seen_get (seen st) conv_id
         in (case foldl (event_step e from_date last_ts seen_set) (buckets, [], last_ts)
                   (iter_messages (py_hash e) conv) of
               (buckets', new_seen, max_ts) \<Rightarrow>
                 (buckets',
                  if new_seen \<noteq> [] then AList.update conv_id (new_seen, max_ts) prog
                  else prog))))"

text \<open>
  Names for what the message loop does, used to state its properties: an event is
  bucketed when it passes both guards and \<open>ts_to_day\<close> gives it a day; the bucketed
  events of a conversation; and the pair \<open>(new_seen, max_ts)\<close> the loop ends with for a
  conversation.
\<close>

definition is_bucketed :: "env \<Rightarrow> date option \<Rightarrow> real \<Rightarrow> pystr list \<Rightarrow> event \<Rightarrow> bool" where
  "is_bucketed e from_date last_ts seen_set ev \<longleftrightarrow>
     passes_checkpoint last_ts seen_set (ev_ts ev) (ev_mid ev)
     \<and> ts_to_day e from_date (ev_ts ev) \<noteq> None"

definition bucketed_events :: "env \<Rightarrow> date option \<Rightarrow> state \<Rightarrow> conversation \<Rightarrow> event list" where
  "bucketed_events e from_date st conv =
     filter (is_bucketed e from_date (hwm_get (conv_hwm st) (conv_key conv))
               (seen_get (seen st) (conv_key conv)))
       (iter_messages (py_hash e) conv)"

definition conv_progress :: "env \<Rightarrow> date option \<Rightarrow> state \<Rightarrow> conversation \<Rightarrow> pystr list \<times> real" where
  "conv_progress e from_date st conv =
     snd (foldl (event_step e from_date (hwm_get (conv_hwm st) (conv_key conv))
                   (seen_get (seen st) (conv_key conv)))
            ([], [], hwm_get (conv_hwm st) (conv_key conv))
            (iter_messages (py_hash e) conv))"

definition cap_text :: "nat \<Rightarrow> pystr list \<Rightarrow> pystr" where
  "cap_text max_chars lines =
     (let joined = ascii ''\<newline>- '' @ join (ascii ''\<newline>- '') lines
      in if length joined > max_chars
         then take max_chars joined
              @ [10, 8230, 65288, 38263, 25991, 12398, 12383, 12417, 36884, 20013, 12414,
                 12391, 65289]
         else joined)"

definition build_daily_raw ::
  "env \<Rightarrow> conversation list \<Rightarrow> state \<Rightarrow> nat \<Rightarrow> date option
     \<Rightarrow> (pystr \<times> pystr) list \<times> progress" where
  "build_daily_raw e conversations st max_chars from_date =
     (case foldl (conv_step e from_date st) ([], []) conversations of
        (buckets, prog) \<Rightarrow>
          (map (\<lambda>(day, lines). (day, cap_text max_chars lines)) buckets, prog))"

text \<open>
  The merge of the run's progress into the state, from \<open>main\<close>:
  \<^verbatim>\<open>
    for conv_id, (new_seen, max_ts) in progress.items():
        state["seen"].setdefault(conv_id, [])
        state["seen"][conv_id].extend(list(new_seen))
        if max_ts > state["conv_hwm"].get(conv_id, -1):
            state["conv_hwm"][conv_id] = max_ts
  \<close>
\<close>

definition commit_entry :: "state \<Rightarrow> pystr \<times> pystr list \<times> real \<Rightarrow> state" where
  "commit_entry st entry =
     (case entry of (conv_id, new_seen, max_ts) \<Rightarrow>
        st\<lparr>seen := AList.update conv_id (seen_get (seen st) conv_id @ new_seen) (seen st),
           conv_hwm := (if max_ts > hwm_get (conv_hwm st) conv_id
                        then AList.update conv_id max_ts (conv_hwm st)
                        else conv_hwm st)\<rparr>)"

definition commit :: "state \<Rightarrow> progress \<Rightarrow> state" where
  "commit st prog = foldl commit_entry st prog"





section \<open>Batch segmenter\<close>

text \<open>
  The splitting loop of \<open>main\<close>:
  \<^verbatim>\<open>
    for line in lines:
        if len(current_chunk + line) > MAX_CHARS_PER_REQUEST and current_chunk:
            chunks.append(current_chunk.strip())
            current_chunk = line + '\n'
        else:
            current_chunk += line + '\n'
    if current_chunk.strip():
        chunks.append(current_chunk.strip())
  \<close>
\<close>

fun chunk_lines :: "nat \<Rightarrow> pystr list \<Rightarrow> pystr \<Rightarrow> pystr list \<Rightarrow> pystr list \<times> pystr" where
  "chunk_lines limit chunks current_chunk [] = (chunks, current_chunk)"
| "chunk_lines limit chunks current_chunk (line # lines) =
     (if length (current_chunk @ line) > limit \<and> current_chunk \<noteq> []
      then chunk_lines limit (chunks @ [strip current_chunk]) (line @ [10]) lines
      else chunk_lines limit chunks (current_chunk @ line @ [10]) lines)"

definition split_chunks :: "nat \<Rightarrow> pystr \<Rightarrow> pystr list" where
  "split_chunks limit combined_text =
     (case chunk_lines limit [] [] (split_nl combined_text) of
        (chunks, current_chunk) \<Rightarrow>
          if strip current_chunk \<noteq> [] then chunks @ [strip current_chunk] else chunks)"

definition summarizer_inputs :: "nat \<Rightarrow> pystr \<Rightarrow> pystr list" where
  \<comment> \<open>The texts \<open>summarize\<close> is called with, in order, for a combined text.\<close>
  "summarizer_inputs limit combined_text =
     (if length (strip combined_text) = 0 then []
      else if length combined_text > limit then split_chunks limit combined_text
      else [combined_text])"

definition MAX_CHARS_PER_REQUEST :: nat where
  "MAX_CHARS_PER_REQUEST = 120000"

definition combined_text_of :: "(pystr \<times> pystr) list \<Rightarrow> pystr" where
  \<comment> \<open>\<open>for day in sorted(daily_raw.keys()): combined_text += f"\n## {day}\n{daily_raw[day]}\n"\<close>\<close>
  "combined_text_of daily_raw =
     concat (map (\<lambda>(day, text). [10] @ ascii ''## '' @ day @ [10] @ text @ [10])
               (sort_key fst daily_raw))"

fun number_parts :: "nat \<Rightarrow> pystr list \<Rightarrow> pystr list" where
  \<comment> \<open>\<open>f"## (part) {i+1}\n{chunk_md}"\<close> for the chunk summaries, \<open>i\<close> counting from the
      first argument.\<close>
  "number_parts i [] = []"
| "number_parts i (chunk_md # rest) =
     ([35, 35, 32, 37096, 20998, 32] @ digits (i + 1) @ [10] @ chunk_md)
       # number_parts (i + 1) rest"

definition combined_md_of :: "nat \<Rightarrow> pystr \<Rightarrow> pystr list \<Rightarrow> pystr" where
  \<comment> \<open>The document the per-day summaries are read from, given the summarizer's answers.\<close>
  "combined_md_of limit combined_text answers =
     (if length combined_text > limit
      then [35, 35, 32, 35079, 25968, 26085, 32, 67, 104, 97, 116, 71, 80, 84, 25391, 12426,
            36820, 12426, 65288, 20998, 21106, 20966, 29702, 65289, 10, 10]
           @ join [10, 10] (number_parts 0 answers)
      else (case answers of [] \<Rightarrow> [] | a # _ \<Rightarrow> a))"

fun summarize_all :: "(pystr \<Rightarrow> pystr option) \<Rightarrow> pystr list \<Rightarrow> pystr list \<times> pystr list option" where
  \<comment> \<open>The calls of \<open>summarize\<close> in order; \<open>None\<close> is a call that raised, which ends the run.
      Returns the inputs of the calls made and the answers.\<close>
  "summarize_all summarize [] = ([], Some [])"
| "summarize_all summarize (c # cs) =
     (case summarize c of
        None \<Rightarrow> ([c], None)
      | Some md \<Rightarrow>
          (case summarize_all summarize cs of
             (calls, answers) \<Rightarrow> (c # calls, map_option ((#) md) answers)))"

section \<open>Run orchestrator: the daily part of main\<close>

text \<open>
  \<open>notion_create_page\<close> returns the page's url, returns \<open>None\<close> (a refused request), or
  raises (a failure of the transport); it is a parameter of the model, as a function of
  the day and the page's markdown.
\<close>

datatype publish_result = PublishRaised | PublishNone | PublishUrl pystr

datatype run_error = SummarizeRaised | SystemExit pystr | PublishException pystr

definition page_markdown :: "(pystr \<times> pystr) list \<Rightarrow> pystr \<Rightarrow> pystr" where
  "page_markdown daily_summaries day =
     (case map_of daily_summaries day of
        Some summary_content \<Rightarrow>
          (if strip summary_content \<noteq> [] \<and> length (strip summary_content) > 5
           then ascii ''## '' @ day @ [10] @ summary_content
           else ascii ''## '' @ day @ [10, 10]
                @ [20250, 35441, 20869, 23481, 12394, 12375, 65288, 35201, 32004, 12364,
                   31354, 65289])
      | None \<Rightarrow>
          ascii ''## '' @ day @ [10, 10]
          @ [20250, 35441, 20869, 23481, 12394, 12375, 65288, 35442, 24403, 26085, 20184,
             12398, 12487, 12540, 12479, 12394, 12375, 65289])"

definition publish_ok :: "(pystr \<Rightarrow> pystr \<Rightarrow> publish_result) \<Rightarrow> (pystr \<times> pystr) list \<Rightarrow> pystr \<Rightarrow> bool" where
  \<comment> \<open>The publish of a day succeeded: \<open>if url:\<close> holds for what \<open>notion_create_page\<close>
      returned.\<close>
  "publish_ok publish daily_summaries day =
     (case publish day (page_markdown daily_summaries day) of
        PublishUrl url \<Rightarrow> url \<noteq> []
      | _ \<Rightarrow> False)"

text \<open>
  The loop over \<open>sorted(daily_raw.keys())\<close>. The result is the list of the days
  \<open>notion_create_page\<close> was called for, and either the error that ended the run or
  \<open>successful_days\<close>.
\<close>

fun publish_loop ::
  "(pystr \<Rightarrow> pystr \<Rightarrow> publish_result) \<Rightarrow> (pystr \<times> pystr) list \<Rightarrow> pystr list \<Rightarrow> pystr list
     \<Rightarrow> pystr list \<times> (run_error + pystr list)" where
  "publish_loop publish daily_summaries successful_days [] =
     (successful_days, Inr successful_days)"
| "publish_loop publish daily_summaries successful_days (day # days) =
     (case publish day (page_markdown daily_summaries day) of
        PublishUrl url \<Rightarrow>
          (if url \<noteq> []
           then publish_loop publish daily_summaries (successful_days @ [day]) days
           else (successful_days @ [day], Inl (SystemExit day)))
      | PublishNone \<Rightarrow> (successful_days @ [day], Inl (SystemExit day))
      | PublishRaised \<Rightarrow> (successful_days @ [day], Inl (PublishException day)))"

text \<open>
  The publish loop followed by the state update. \<open>file\<close> is the content of
  \<open>state.json\<close> (\<open>None\<close> when there is no file), \<open>st\<close> the state loaded at the start of the
  run; \<open>save_state\<close> replaces the file by the merged state. \<open>failed_days\<close> is empty
  whenever the loop ends without \<open>SystemExit\<close>, so the test before the update is
  \<open>successful_days\<close> alone.
\<close>

record run_result =
  publish_calls :: "pystr list"
  run_outcome :: "run_error option"
  file_after :: "state option"

definition publish_and_commit ::
  "(pystr \<Rightarrow> pystr \<Rightarrow> publish_result) \<Rightarrow> (pystr \<times> pystr) list \<Rightarrow> pystr list \<Rightarrow> state
     \<Rightarrow> progress \<Rightarrow> state option \<Rightarrow> run_result" where
  "publish_and_commit publish daily_summaries days st prog file =
     (case publish_loop publish daily_summaries [] days of
        (calls, Inl err) \<Rightarrow>
          \<lparr>publish_calls = calls, run_outcome = Some err, file_after = file\<rparr>
      | (calls, Inr successful_days) \<Rightarrow>
          \<lparr>publish_calls = calls, run_outcome = None,
           file_after = (if successful_days \<noteq> [] then Some (commit st prog) else file)\<rparr>)"

text \<open>
  The daily part of \<open>main\<close>, from \<open>load_state\<close> to the state update. \<open>summarize\<close> is the
  summarizer (\<open>None\<close> when the call raises) and \<open>sections_of\<close> stands for the splitting of
  the summarizer's document into per-day summaries; both are parameters.
\<close>

definition main_daily ::
  "env \<Rightarrow> (pystr \<Rightarrow> pystr option) \<Rightarrow> (pystr \<Rightarrow> (pystr \<times> pystr) list)
     \<Rightarrow> (pystr \<Rightarrow> pystr \<Rightarrow> publish_result) \<Rightarrow> conversation list \<Rightarrow> date option
     \<Rightarrow> state option \<Rightarrow> run_result" where
  "main_daily e summarize sections_of publish conversations from_date file =
     (let st = load_state file in
      case build_daily_raw e conversations st 16000 from_date of
        (daily_raw, prog) \<Rightarrow>
          (let combined_text = combined_text_of daily_raw in
           case summarize_all summarize
                  (summarizer_inputs MAX_CHARS_PER_REQUEST combined_text) of
             (calls, None) \<Rightarrow>
               \<lparr>publish_calls = [], run_outcome = Some SummarizeRaised, file_after = file\<rparr>
           | (calls, Some answers) \<Rightarrow>
               publish_and_commit publish
                 (if answers = [] then []
                  else sections_of (combined_md_of MAX_CHARS_PER_REQUEST combined_text answers))
                 (sort (map fst daily_raw)) st prog file))"

section \<open>Concrete data for the examples\<close>

text \<open>
  An environment for evaluating the model on concrete inputs: the conversion to a JST
  date is the day count of the timestamp shifted by nine hours (1970-01-01 has ordinal
  719163), and the ISO format is spelled out for 2025-09-10 to 2025-09-30 only (ordinal
  739494 is 2025-08-31).
\<close>

definition ex_env :: env where
  "ex_env =
     \<lparr>jst_today = ascii ''2025-09-30'',
      jst_date = (\<lambda>t. Some (\<lfloor>(t + 32400) / 86400\<rfloor> + 719163)),
      isoformat = (\<lambda>d. ascii ''2025-09-'' @ digits (nat (d - 739494))),
      py_hash = (\<lambda>x. 0)\<rparr>"

definition ex_event :: "string \<Rightarrow> real option \<Rightarrow> event" where
  "ex_event mid ts =
     \<lparr>ev_conv_id = ascii ''c1'', ev_role = ascii ''user'', ev_text = ascii ''hi'',
      ev_ts = ts, ev_mid = ascii mid, ev_title = ascii ''t''\<rparr>"

text \<open>
  Two conversations of the flat-list shape, each with one user message: \<open>c1\<close> holds a
  message of 2025-09-26 09:00 JST (timestamp 1758844800), \<open>c2\<close> one of 2025-09-20 09:00
  JST (timestamp 1758326400). The state knows \<open>c1\<close> with high-water mark 5 and the seen
  id \<open>m0\<close>.
\<close>

definition ex_msg :: "string \<Rightarrow> real option \<Rightarrow> message" where
  "ex_msg mid ts =
     \<lparr>msg_role = Some (ascii ''user''), msg_content = ContentStr (ascii ''hi''),
      msg_create_time = ts, msg_id = Some (ascii mid)\<rparr>"

definition ex_conv :: "string \<Rightarrow> message list \<Rightarrow> conversation" where
  "ex_conv cid msgs =
     \<lparr>conv_id_key = Some (ascii cid), conv_conversation_id = None,
      conv_title = Some (ascii ''t''), conv_mapping = [], conv_messages = msgs\<rparr>"

definition ex_state :: state where
  "ex_state = \<lparr>version = 1, conv_hwm = [(ascii ''c1'', 5)], seen = [(ascii ''c1'', [ascii ''m0''])]\<rparr>"

definition ex_convs :: "conversation list" where
  "ex_convs = [ex_conv ''c1'' [ex_msg ''m1'' (Some 1758844800)],
               ex_conv ''c2'' [ex_msg ''m2'' (Some 1758326400)]]"

text \<open>A publisher that accepts the page of 2025-09-26 and refuses every other.\<close>

definition ex_publish :: "pystr \<Rightarrow> pystr \<Rightarrow> publish_result" where
  "ex_publish day md = (if day = ascii ''2025-09-26'' then PublishUrl (ascii ''u'') else PublishNone)"

text \<open>
  Two conversations without \<open>id\<close> and \<open>conversation_id\<close>, which both get the id
  \<open>(unknown)\<close>: the first holds \<open>m1\<close> of 2025-09-26 10:00 JST, the second \<open>m2\<close> of
  2025-09-26 09:00 JST. \<open>dup_state\<close> is the state after a first run over them.
\<close>

definition dup_convs :: "conversation list" where
  "dup_convs =
     [\<lparr>conv_id_key = None, conv_conversation_id = None, conv_title = Some (ascii ''t''),
       conv_mapping = [], conv_messages = [ex_msg ''m1'' (Some 1758848400)]\<rparr>,
      \<lparr>conv_id_key = None, conv_conversation_id = None, conv_title = Some (ascii ''t''),
       conv_mapping = [], conv_messages = [ex_msg ''m2'' (Some 1758844800)]\<rparr>]"

definition dup_state :: state where
  "dup_state = \<lparr>version = 1, conv_hwm = [(ascii ''(unknown)'', 1758844800)],
                seen = [(ascii ''(unknown)'', [ascii ''m2''])]\<rparr>"

text \<open>
  A graph-shaped conversation whose two nodes \<open>n1\<close> and \<open>n2\<close> hold messages without an
  \<open>id\<close> and with the same role, text and (absent) timestamp.
\<close>

definition ex_anon_msg :: message where
  "ex_anon_msg =
     \<lparr>msg_role = Some (ascii ''user''), msg_content = ContentParts [PartStr (ascii ''hi'')],
      msg_create_time = None, msg_id = None\<rparr>"

definition ex_graph_conv :: conversation where
  "ex_graph_conv =
     \<lparr>conv_id_key = Some (ascii ''c1''), conv_conversation_id = None,
      conv_title = Some (ascii ''t''),
      conv_mapping = [(ascii ''n1'', Some ex_anon_msg), (ascii ''n2'', Some ex_anon_msg)],
      conv_messages = []\<rparr>"

text \<open>
  A flat-list conversation \<open>c1\<close> whose only message has no \<open>id\<close> and no \<open>create_time\<close>,
  and a second environment that differs from \<open>ex_env\<close> in the interpreter's hash only:
  \<open>hash\<close> of a tuple that holds strings is salted anew in every interpreter process, so
  two runs are two environments with different hash functions. \<open>ex_flat_state\<close> is the state
  after a first run over the conversation in \<open>ex_env\<close>.
\<close>

definition ex_flat_conv :: conversation where
  "ex_flat_conv =
     \<lparr>conv_id_key = Some (ascii ''c1''), conv_conversation_id = None,
      conv_title = Some (ascii ''t''), conv_mapping = [], conv_messages = [ex_anon_msg]\<rparr>"

definition ex_env2 :: env where
  "ex_env2 = ex_env\<lparr>py_hash := (\<lambda>x. 1)\<rparr>"

definition ex_flat_state :: state where
  "ex_flat_state =
     \<lparr>version = 1, conv_hwm = [], seen = [(ascii ''c1'', [ascii ''legacy-0''])]\<rparr>"


section \<open>Scheduler: the next Saturday\<close>

lemma weekday_bounds: "0 \<le> weekday d" "weekday d < 7"
  by (simp_all add: weekday_def)

lemma weekday_plus7: "weekday (d + 7) = weekday d"
proof -
  have "d + 7 + 6 = (d + 6) + 7" by simp
  then have "(d + 7 + 6) mod 7 = ((d + 6) + 7) mod 7" by (rule arg_cong)
  also have "\<dots> = (d + 6) mod 7" by (rule mod_add_self2)
  finally show ?thesis by (simp only: weekday_def)
qed

lemma weekday_shift: "weekday (d - weekday d + 5) = 5"
proof -
  have e: "d - (d + 6) mod 7 + 5 + 6 = 7 * ((d + 6) div 7) + 5"
    using mult_div_mod_eq [of 7 "d + 6"] by linarith
  have "(7 * ((d + 6) div 7) + 5) mod 7 = (5::int) mod 7"
    by (rule mod_mult_self4)
  then show ?thesis by (simp only: weekday_def e) simp
qed

lemma weekday_next_saturday: "weekday (next_saturday d) = 5"
proof (cases "d - weekday d + 5 \<le> d")
  case True
  then have "next_saturday d = (d - weekday d + 5) + 7"
    by (simp add: next_saturday_def Let_def)
  then show ?thesis by (simp only: weekday_plus7 weekday_shift)
next
  case False
  then have "next_saturday d = d - weekday d + 5"
    by (simp add: next_saturday_def Let_def)
  then show ?thesis by (simp only: weekday_shift)
qed

lemma next_saturday_after: "d < next_saturday d \<and> next_saturday d \<le> d + 7"
  using weekday_bounds [of d] by (auto simp: next_saturday_def Let_def)

lemma saturday_gap:
  assumes "weekday s = 5" and "weekday t = 5" and "s < t"
  shows "s + 7 \<le> t"
proof -
  have s: "s + 6 = 7 * ((s + 6) div 7) + 5"
    using mult_div_mod_eq [of 7 "s + 6"] assms(1) unfolding weekday_def by linarith
  have t: "t + 6 = 7 * ((t + 6) div 7) + 5"
    using mult_div_mod_eq [of 7 "t + 6"] assms(2) unfolding weekday_def by linarith
  from s t assms(3) have "(s + 6) div 7 < (t + 6) div 7" by linarith
  then have "(s + 6) div 7 + 1 \<le> (t + 6) div 7" by linarith
  with s t show ?thesis by linarith
qed

lemma next_saturday_first:
  assumes "weekday s = 5" and "d < s"
  shows "next_saturday d \<le> s"
proof (rule ccontr)
  assume "\<not> next_saturday d \<le> s"
  then have "s < next_saturday d" by simp
  with assms(1) weekday_next_saturday [of d] have "s + 7 \<le> next_saturday d"
    by (intro saturday_gap) auto
  with next_saturday_after [of d] assms(2) show False by linarith
qed

text \<open>
  C7. For a present last registration date \<open>d\<close>, the computed date is a Saturday, lies
  strictly after \<open>d\<close>, and no Saturday strictly after \<open>d\<close> is earlier: it is the first
  Saturday strictly after \<open>d\<close>. A Wednesday gives the Saturday three days later, a Saturday
  the one seven days later. Both copies of the decision (the library function and the
  one inlined in the orchestrator) judge the digest due exactly when today is on or after
  that Saturday.
\<close>

theorem next_saturday_is_first_saturday_after:
  "weekday (next_saturday d) = 5
   \<and> d < next_saturday d
   \<and> (\<forall>s. weekday s = 5 \<and> d < s \<longrightarrow> next_saturday d \<le> s)
   \<and> (weekday d = 2 \<longrightarrow> next_saturday d = d + 3)
   \<and> (weekday d = 5 \<longrightarrow> next_saturday d = d + 7)
   \<and> (should_create_weekly_report today_date (Some d) \<longleftrightarrow> next_saturday d \<le> today_date)
   \<and> (main_should_create today_date (Some d) \<longleftrightarrow> next_saturday d \<le> today_date)"
proof -
  have wed: "weekday d = 2 \<longrightarrow> next_saturday d = d + 3"
    by (simp add: next_saturday_def Let_def)
  have sat: "weekday d = 5 \<longrightarrow> next_saturday d = d + 7"
    by (simp add: next_saturday_def Let_def)
  have due1: "should_create_weekly_report today_date (Some d) \<longleftrightarrow> next_saturday d \<le> today_date"
    by (simp add: should_create_weekly_report_def)
  have due2: "main_should_create today_date (Some d) \<longleftrightarrow> next_saturday d \<le> today_date"
    by (simp add: main_should_create_def)
  show ?thesis
    using weekday_next_saturday [of d] next_saturday_after [of d] next_saturday_first [of _ d]
      wed sat due1 due2 by blast
qed

text \<open>
  Witness for C7: 2025-09-24 (ordinal 739518) is a Wednesday and 2025-09-27 (ordinal
  739521) a Saturday; the next Saturdays are 2025-09-27 and 2025-10-04 (ordinal 739528).
\<close>

theorem next_saturday_is_first_saturday_after_witness:
  "weekday 739518 = 2 \<and> next_saturday 739518 = 739521
   \<and> weekday 739521 = 5 \<and> next_saturday 739521 = 739528
   \<and> should_create_weekly_report 739521 (Some 739518)
   \<and> \<not> main_should_create 739520 (Some 739518)"
  using next_saturday_is_first_saturday_after [of 739518 739521]
    next_saturday_is_first_saturday_after [of 739521 739521]
    next_saturday_is_first_saturday_after [of 739518 739520]
  by (simp add: weekday_def)

section \<open>The two guards of the message loop\<close>

text \<open>
  For arbitrary arguments the two guards let an event through exactly when its timestamp
  is absent or above the mark and its id is not in the seen-list.
\<close>

lemma passes_checkpoint_iff:
  "passes_checkpoint last_ts seen_set ts mid \<longleftrightarrow>
     (ts = None \<or> (\<exists>t. ts = Some t \<and> t > last_ts)) \<and> mid \<notin> set seen_set"
  by (cases ts) (auto simp: passes_checkpoint_def)

section \<open>Floor exclusion\<close>

lemma floor_drop_step:
  assumes "ev_ts ev = Some t" and "jst_date e t = Some d" and "from_date = Some fd"
    and "d < fd"
  shows "event_step e from_date last_ts seen_set acc ev = acc"
  using assms by (cases acc) (simp add: event_step_def ts_to_day_def)

text \<open>
  C6. An event whose timestamp converts to a date strictly before the floor gets no day,
  and the message loop of \<open>build_daily_raw\<close> leaves the buckets, the set of newly seen
  ids and the running maximum timestamp as they were: the loop over a conversation's
  events ends in the same state as the loop over the events without it.
\<close>

theorem floor_dropped_event_leaves_no_trace:
  assumes "ev_ts ev = Some t" and "jst_date e t = Some d" and "from_date = Some fd"
    and "d < fd"
  shows "ts_to_day e from_date (ev_ts ev) = None
    \<and> event_step e from_date last_ts seen_set (buckets, new_seen, max_ts) ev
        = (buckets, new_seen, max_ts)
    \<and> foldl (event_step e from_date last_ts seen_set) acc (before @ ev # after)
        = foldl (event_step e from_date last_ts seen_set) acc (before @ after)"
proof -
  have day: "ts_to_day e from_date (ev_ts ev) = None"
    using assms by (simp add: ts_to_day_def)
  have step: "\<And>a. event_step e from_date last_ts seen_set a ev = a"
    using assms by (rule floor_drop_step)
  show ?thesis using day step by simp
qed

text \<open>
  Witness for C6: the floor is 2025-09-25 (ordinal 739519) and the event is stamped
  1758326400, which is 2025-09-20 09:00 in JST (ordinal 739514).
\<close>

theorem floor_dropped_event_leaves_no_trace_witness:
  "ev_ts (ex_event ''m1'' (Some 1758326400)) = Some 1758326400
   \<and> jst_date ex_env 1758326400 = Some 739514
   \<and> (739514::int) < 739519
   \<and> ts_to_day ex_env (Some 739519) (ev_ts (ex_event ''m1'' (Some 1758326400))) = None
   \<and> event_step ex_env (Some 739519) (- 1) [] ([], [], - 1)
        (ex_event ''m1'' (Some 1758326400)) = ([], [], - 1)"
proof -
  have a: "ev_ts (ex_event ''m1'' (Some 1758326400)) = Some 1758326400"
    by (simp add: ex_event_def)
  have b: "jst_date ex_env 1758326400 = Some 739514"
    by (simp add: ex_env_def)
  have c: "(739514::int) < 739519" by simp
  show ?thesis
    using a b c floor_dropped_event_leaves_no_trace [OF a b refl c, of "- 1" "[]" "[]" "[]" "- 1"]
    by simp
qed

section \<open>The commit and the message loop\<close>

lemma hwm_get_update:
  "hwm_get (AList.update k v al) c = (if c = k then v else hwm_get al c)"
  by (simp add: hwm_get_def update_conv')

lemma seen_get_update:
  "seen_get (AList.update k v al) c = (if c = k then v else seen_get al c)"
  by (simp add: seen_get_def update_conv')

lemma commit_entry_hwm_mono:
  "hwm_get (conv_hwm st) c \<le> hwm_get (conv_hwm (commit_entry st entry)) c"
  by (cases entry) (simp add: commit_entry_def hwm_get_update)

lemma commit_entry_seen_mono:
  "set (seen_get (seen st) c) \<subseteq> set (seen_get (seen (commit_entry st entry)) c)"
  by (cases entry) (auto simp: commit_entry_def seen_get_update)

lemma commit_entry_other:
  assumes "c \<noteq> fst entry"
  shows "map_of (conv_hwm (commit_entry st entry)) c = map_of (conv_hwm st) c"
    and "map_of (seen (commit_entry st entry)) c = map_of (seen st) c"
  using assms by (cases entry; simp add: commit_entry_def update_conv')+

lemma commit_entry_version: "version (commit_entry st entry) = version st"
  by (cases entry) (simp add: commit_entry_def)

lemma commit_entry_has_new:
  "set (fst (snd entry)) \<subseteq> set (seen_get (seen (commit_entry st entry)) (fst entry))"
  by (cases entry) (auto simp: commit_entry_def seen_get_update)

lemma commit_hwm_mono:
  "hwm_get (conv_hwm st) c \<le> hwm_get (conv_hwm (commit st prog)) c"
  unfolding commit_def
proof (induction prog arbitrary: st)
  case Nil
  show ?case by simp
next
  case (Cons entry prog)
  have "hwm_get (conv_hwm st) c \<le> hwm_get (conv_hwm (commit_entry st entry)) c"
    by (rule commit_entry_hwm_mono)
  also have "\<dots> \<le> hwm_get (conv_hwm (foldl commit_entry (commit_entry st entry) prog)) c"
    by (rule Cons.IH)
  finally show ?case by simp
qed

lemma commit_seen_mono:
  "set (seen_get (seen st) c) \<subseteq> set (seen_get (seen (commit st prog)) c)"
  unfolding commit_def
proof (induction prog arbitrary: st)
  case Nil
  show ?case by simp
next
  case (Cons entry prog)
  have "set (seen_get (seen st) c) \<subseteq> set (seen_get (seen (commit_entry st entry)) c)"
    by (rule commit_entry_seen_mono)
  also have "\<dots> \<subseteq> set (seen_get (seen (foldl commit_entry (commit_entry st entry) prog)) c)"
    by (rule Cons.IH)
  finally show ?case by simp
qed

lemma commit_other:
  assumes "c \<notin> fst ` set prog"
  shows "map_of (conv_hwm (commit st prog)) c = map_of (conv_hwm st) c
       \<and> map_of (seen (commit st prog)) c = map_of (seen st) c"
  using assms unfolding commit_def
proof (induction prog arbitrary: st)
  case Nil
  show ?case by simp
next
  case (Cons entry prog)
  then have ne: "c \<noteq> fst entry" and rest: "c \<notin> fst ` set prog" by auto
  show ?case using Cons.IH [OF rest, of "commit_entry st entry"] commit_entry_other [OF ne, of st]
    by simp
qed

lemma commit_has_new:
  assumes "(k, ns, m) \<in> set prog"
  shows "set ns \<subseteq> set (seen_get (seen (commit st prog)) k)"
  using assms
proof (induction prog arbitrary: st)
  case Nil
  then show ?case by simp
next
  case (Cons entry prog)
  show ?case
  proof (cases "entry = (k, ns, m)")
    case True
    have "set ns \<subseteq> set (seen_get (seen (commit_entry st entry)) k)"
      using commit_entry_has_new [of entry st] True by simp
    also have "\<dots> \<subseteq> set (seen_get (seen (commit (commit_entry st entry) prog)) k)"
      by (rule commit_seen_mono)
    finally show ?thesis by (simp add: commit_def)
  next
    case False
    with Cons.prems have "(k, ns, m) \<in> set prog" by simp
    from Cons.IH [OF this, of "commit_entry st entry"] show ?thesis by (simp add: commit_def)
  qed
qed

lemma event_step_skip:
  "\<not> is_bucketed e fd last_ts seen_set ev \<Longrightarrow> event_step e fd last_ts seen_set acc ev = acc"
  by (cases acc) (auto simp: event_step_def is_bucketed_def)

lemma event_step_new_seen:
  "fst (snd (event_step e fd last_ts seen_set (b, ns, m) ev))
     = (if is_bucketed e fd last_ts seen_set ev then set_add (ev_mid ev) ns else ns)"
  by (auto simp: event_step_def is_bucketed_def)

lemma set_set_add: "set (set_add x xs) = insert x (set xs)"
  by (auto simp: set_add_def)

lemma loop_new_seen:
  "set (fst (snd (foldl (event_step e fd last_ts seen_set) (b, ns, m) evs)))
     = set ns \<union> ev_mid ` {ev \<in> set evs. is_bucketed e fd last_ts seen_set ev}"
proof (induction evs arbitrary: b ns m)
  case Nil
  show ?case by simp
next
  case (Cons ev evs)
  obtain b' ns' m' where st: "event_step e fd last_ts seen_set (b, ns, m) ev = (b', ns', m')"
    by (cases "event_step e fd last_ts seen_set (b, ns, m) ev") auto
  have ns': "ns' = (if is_bucketed e fd last_ts seen_set ev then set_add (ev_mid ev) ns else ns)"
    using event_step_new_seen [of e fd last_ts seen_set b ns m ev] st by simp
  show ?case
    using Cons.IH [of b' ns' m'] st ns' by (auto simp: set_set_add)
qed

lemma loop_identity:
  assumes "\<forall>ev \<in> set evs. \<not> is_bucketed e fd last_ts seen_set ev"
  shows "foldl (event_step e fd last_ts seen_set) acc evs = acc"
  using assms by (induction evs arbitrary: acc) (simp_all add: event_step_skip)

lemma loop_snd_indep:
  "snd (foldl (event_step e fd last_ts seen_set) (b, ns, m) evs)
     = snd (foldl (event_step e fd last_ts seen_set) (b', ns, m) evs)"
proof (induction evs arbitrary: b b' ns m)
  case Nil
  show ?case by simp
next
  case (Cons ev evs)
  have "snd (event_step e fd last_ts seen_set (b, ns, m) ev)
      = snd (event_step e fd last_ts seen_set (b', ns, m) ev)"
    by (auto simp: event_step_def split: option.splits)
  then obtain c c' ns' m' where
    "event_step e fd last_ts seen_set (b, ns, m) ev = (c, ns', m')"
    "event_step e fd last_ts seen_set (b', ns, m) ev = (c', ns', m')"
    by (metis prod.collapse)
  then show ?case using Cons.IH [of c ns' m' c'] by simp
qed

lemma conv_progress_seen:
  "set (fst (conv_progress e fd st conv)) = ev_mid ` set (bucketed_events e fd st conv)"
  unfolding conv_progress_def bucketed_events_def
  using loop_new_seen [of e fd "hwm_get (conv_hwm st) (conv_key conv)"
      "seen_get (seen st) (conv_key conv)" "[]" "[]" "hwm_get (conv_hwm st) (conv_key conv)"
      "iter_messages (py_hash e) conv"]
  by simp

lemma conv_progress_empty_iff:
  "fst (conv_progress e fd st conv) = [] \<longleftrightarrow> bucketed_events e fd st conv = []"
  using conv_progress_seen [of e fd st conv]
  by (metis image_is_empty set_empty)

lemma conv_step_snd:
  "snd (conv_step e fd st (b, p) conv)
     = (if fst (conv_progress e fd st conv) \<noteq> []
        then AList.update (conv_key conv) (conv_progress e fd st conv) p else p)"
proof -
  let ?last = "hwm_get (conv_hwm st) (conv_key conv)"
  let ?seen = "seen_get (seen st) (conv_key conv)"
  let ?evs = "iter_messages (py_hash e) conv"
  obtain b' ns m where r: "foldl (event_step e fd ?last ?seen) (b, [], ?last) ?evs = (b', ns, m)"
    by (cases "foldl (event_step e fd ?last ?seen) (b, [], ?last) ?evs") auto
  have "conv_progress e fd st conv = snd (foldl (event_step e fd ?last ?seen) (b, [], ?last) ?evs)"
    unfolding conv_progress_def by (rule loop_snd_indep)
  with r have cp: "conv_progress e fd st conv = (ns, m)" by simp
  show ?thesis using r cp by (simp add: conv_step_def Let_def)
qed

lemma conv_step_identity:
  assumes "bucketed_events e fd st conv = []"
  shows "conv_step e fd st acc conv = acc"
proof -
  let ?last = "hwm_get (conv_hwm st) (conv_key conv)"
  let ?seen = "seen_get (seen st) (conv_key conv)"
  have "\<forall>ev \<in> set (iter_messages (py_hash e) conv). \<not> is_bucketed e fd ?last ?seen ev"
    using assms unfolding bucketed_events_def by (simp add: filter_empty_conv)
  then have "\<And>a. foldl (event_step e fd ?last ?seen) a (iter_messages (py_hash e) conv) = a"
    by (rule loop_identity)
  then show ?thesis by (cases acc) (simp add: conv_step_def Let_def)
qed

lemma progress_keys:
  assumes "k \<in> fst ` set (snd (foldl (conv_step e fd st) (b, p) convs))"
  shows "k \<in> fst ` set p
       \<or> (\<exists>conv \<in> set convs. conv_key conv = k \<and> bucketed_events e fd st conv \<noteq> [])"
  using assms
proof (induction convs arbitrary: b p)
  case Nil
  then show ?case by simp
next
  case (Cons conv convs)
  obtain b' p' where st1: "conv_step e fd st (b, p) conv = (b', p')"
    by (cases "conv_step e fd st (b, p) conv") auto
  then have p': "p' = (if fst (conv_progress e fd st conv) \<noteq> []
        then AList.update (conv_key conv) (conv_progress e fd st conv) p else p)"
    using conv_step_snd [of e fd st b p conv] by simp
  from Cons.prems st1 have "k \<in> fst ` set (snd (foldl (conv_step e fd st) (b', p') convs))"
    by simp
  from Cons.IH [OF this] consider "k \<in> fst ` set p'"
    | "\<exists>c \<in> set convs. conv_key c = k \<and> bucketed_events e fd st c \<noteq> []" by blast
  then show ?case
  proof cases
    case 1
    show ?thesis
    proof (cases "fst (conv_progress e fd st conv) \<noteq> []")
      case True
      with p' 1 have "k = conv_key conv \<or> k \<in> fst ` set p" by (auto simp: dom_update)
      moreover from True have "bucketed_events e fd st conv \<noteq> []"
        by (simp add: conv_progress_empty_iff)
      ultimately show ?thesis by auto
    next
      case False
      with p' 1 show ?thesis by simp
    qed
  next
    case 2
    then show ?thesis by auto
  qed
qed

section \<open>Evaluating the examples\<close>

lemmas model_defs = build_daily_raw_def conv_step_def event_step_def iter_messages_def
  legacy_event_def mapping_event_def conv_key_def title_of_def truthy_def
  passes_checkpoint_def ts_to_day_def hwm_get_def seen_get_def set_add_def
  ex_env_def ex_msg_def ex_conv_def ex_state_def ex_convs_def ascii_def Let_def

lemma ex_progress:
  "snd (build_daily_raw ex_env ex_convs ex_state 16000 (Some 739519))
     = [(ascii ''c1'', [ascii ''m1''], 1758844800)]"
  by (simp add: model_defs)

lemma ex_bucketed: "bucketed_events ex_env (Some 739519) ex_state (ex_conv ''c2'' [ex_msg ''m2'' (Some 1758326400)]) = []"
  by (simp add: bucketed_events_def is_bucketed_def model_defs)

lemma ex_commit: "commit ex_state [(ascii ''c1'', [ascii ''m1''], 1758844800)]
   = \<lparr>version = 1, conv_hwm = [(ascii ''c1'', 1758844800)],
      seen = [(ascii ''c1'', [ascii ''m0'', ascii ''m1''])]\<rparr>"
  by (simp add: commit_def commit_entry_def model_defs)

lemma ex_daily:
  "fst (build_daily_raw ex_env ex_convs ex_state 16000 (Some 739519))
     = [(ascii ''2025-09-26'', [10, 45, 32, 91, 12518, 12540, 12470, 12540, 93, 32, 116, 65372, 104, 105])]"
  by (simp add: model_defs bucket_line_def cap_text_def strip_def py_isspace_def)

lemma ex_main_fail:
  "main_daily ex_env (\<lambda>t. Some t) (\<lambda>md. []) (\<lambda>day md. PublishNone) ex_convs (Some 739519)
     (Some ex_state)
   = \<lparr>publish_calls = [ascii ''2025-09-26''],
      run_outcome = Some (SystemExit (ascii ''2025-09-26'')),
      file_after = Some ex_state\<rparr>"
proof -
  have b: "build_daily_raw ex_env ex_convs ex_state 16000 (Some 739519)
     = ([(ascii ''2025-09-26'', [10, 45, 32, 91, 12518, 12540, 12470, 12540, 93, 32, 116, 65372, 104, 105])],
        [(ascii ''c1'', [ascii ''m1''], 1758844800)])"
    using ex_daily ex_progress by (simp add: prod_eq_iff)
  show ?thesis
    by (simp add: main_daily_def load_state_def b combined_text_of_def summarizer_inputs_def
        MAX_CHARS_PER_REQUEST_def strip_def py_isspace_def ascii_def publish_and_commit_def
        page_markdown_def)
qed


lemmas dup_defs = build_daily_raw_def conv_step_def event_step_def iter_messages_def
  legacy_event_def mapping_event_def conv_key_def title_of_def truthy_def
  passes_checkpoint_def ts_to_day_def hwm_get_def seen_get_def set_add_def
  ex_env_def ex_msg_def dup_convs_def dup_state_def Let_def load_state_def

lemma dup_build1:
  "build_daily_raw ex_env dup_convs (load_state None) 16000 (Some 739519)
     = ([(ascii ''2025-09-26'',
          [10, 45, 32, 91, 12518, 12540, 12470, 12540, 93, 32, 116, 65372, 104, 105,
           10, 45, 32, 91, 12518, 12540, 12470, 12540, 93, 32, 116, 65372, 104, 105])],
        [(ascii ''(unknown)'', [ascii ''m2''], 1758844800)])"
  by (simp add: dup_defs bucket_line_def cap_text_def strip_def py_isspace_def ascii_def)

lemma dup_build2:
  "build_daily_raw ex_env dup_convs dup_state 16000 (Some 739519)
     = ([(ascii ''2025-09-26'', [10, 45, 32, 91, 12518, 12540, 12470, 12540, 93, 32, 116, 65372, 104, 105])],
        [(ascii ''(unknown)'', [ascii ''m1''], 1758848400)])"
  by (simp add: dup_defs bucket_line_def cap_text_def strip_def py_isspace_def ascii_def)

lemma dup_run1:
  "main_daily ex_env (\<lambda>t. Some t) (\<lambda>md. []) ex_publish dup_convs (Some 739519) None
     = \<lparr>publish_calls = [ascii ''2025-09-26''], run_outcome = None,
        file_after = Some dup_state\<rparr>"
proof -
  have c: "commit (load_state None) [(ascii ''(unknown)'', [ascii ''m2''], 1758844800)] = dup_state"
    by (simp add: commit_def commit_entry_def load_state_def hwm_get_def seen_get_def dup_state_def)
  show ?thesis
    by (simp add: main_daily_def dup_build1 c combined_text_of_def summarizer_inputs_def
        MAX_CHARS_PER_REQUEST_def strip_def py_isspace_def publish_and_commit_def
        page_markdown_def ex_publish_def) (simp add: ascii_def)
qed

lemma dup_run2:
  "main_daily ex_env (\<lambda>t. Some t) (\<lambda>md. []) ex_publish dup_convs (Some 739519) (Some dup_state)
     = \<lparr>publish_calls = [ascii ''2025-09-26''], run_outcome = None,
        file_after = Some \<lparr>version = 1, conv_hwm = [(ascii ''(unknown)'', 1758848400)],
                seen = [(ascii ''(unknown)'', [ascii ''m2'', ascii ''m1''])]\<rparr>\<rparr>"
proof -
  have l: "load_state (Some dup_state) = dup_state" by (simp add: load_state_def)
  have c: "commit dup_state [(ascii ''(unknown)'', [ascii ''m1''], 1758848400)]
     = \<lparr>version = 1, conv_hwm = [(ascii ''(unknown)'', 1758848400)],
                seen = [(ascii ''(unknown)'', [ascii ''m2'', ascii ''m1''])]\<rparr>"
    by (simp add: commit_def commit_entry_def hwm_get_def seen_get_def dup_state_def)
  show ?thesis
    by (simp add: main_daily_def l dup_build2 c combined_text_of_def summarizer_inputs_def
        MAX_CHARS_PER_REQUEST_def strip_def py_isspace_def publish_and_commit_def
        page_markdown_def ex_publish_def) (simp add: ascii_def)
qed

section \<open>Monotone commit\<close>

text \<open>
  C10. Merging any progress into the state never lowers a conversation's high-water mark
  and never removes an id from its seen-list; and when the progress is that of
  \<open>build_daily_raw\<close> and no conversation with id \<open>c\<close> had a message bucketed in the run, the
  entries of \<open>c\<close> in \<open>conv_hwm\<close> and in \<open>seen\<close> are unchanged.
\<close>

theorem commit_is_monotone:
  "hwm_get (conv_hwm st) c \<le> hwm_get (conv_hwm (commit st prog)) c
   \<and> set (seen_get (seen st) c) \<subseteq> set (seen_get (seen (commit st prog)) c)
   \<and> (prog = snd (build_daily_raw e convs st max_chars from_date)
        \<and> (\<forall>conv \<in> set convs. conv_key conv = c \<longrightarrow> bucketed_events e from_date st conv = [])
      \<longrightarrow> map_of (conv_hwm (commit st prog)) c = map_of (conv_hwm st) c
          \<and> map_of (seen (commit st prog)) c = map_of (seen st) c)"
proof -
  have unchanged: "map_of (conv_hwm (commit st prog)) c = map_of (conv_hwm st) c
          \<and> map_of (seen (commit st prog)) c = map_of (seen st) c"
    if p: "prog = snd (build_daily_raw e convs st max_chars from_date)"
      and q: "\<forall>conv \<in> set convs. conv_key conv = c \<longrightarrow> bucketed_events e from_date st conv = []"
  proof -
    have "prog = snd (foldl (conv_step e from_date st) ([], []) convs)"
      using p by (simp add: build_daily_raw_def split: prod.splits)
    then have "c \<notin> fst ` set prog"
      using progress_keys [of c e from_date st "[]" "[]" convs] q by auto
    then show ?thesis by (rule commit_other)
  qed
  show ?thesis
    using commit_hwm_mono [of st c prog] commit_seen_mono [of st c prog] unchanged by blast
qed

text \<open>
  Witness for C10, with the floor at 2025-09-25: \<open>c1\<close> contributes \<open>m1\<close>, so its mark
  rises from 5 to 1758844800 and \<open>m1\<close> joins \<open>m0\<close>; the only message of \<open>c2\<close> is dropped
  by the floor, and \<open>c2\<close> stays absent from the state.
\<close>

theorem commit_is_monotone_witness:
  "hwm_get (conv_hwm ex_state) (ascii ''c1'') = 5
   \<and> hwm_get (conv_hwm (commit ex_state
         (snd (build_daily_raw ex_env ex_convs ex_state 16000 (Some 739519))))) (ascii ''c1'')
       = 1758844800
   \<and> seen_get (seen (commit ex_state
         (snd (build_daily_raw ex_env ex_convs ex_state 16000 (Some 739519))))) (ascii ''c1'')
       = [ascii ''m0'', ascii ''m1'']
   \<and> map_of (conv_hwm (commit ex_state
         (snd (build_daily_raw ex_env ex_convs ex_state 16000 (Some 739519))))) (ascii ''c2'')
       = None
   \<and> map_of (seen (commit ex_state
         (snd (build_daily_raw ex_env ex_convs ex_state 16000 (Some 739519))))) (ascii ''c2'')
       = None"
proof -
  have hyp: "\<forall>conv \<in> set ex_convs. conv_key conv = ascii ''c2''
               \<longrightarrow> bucketed_events ex_env (Some 739519) ex_state conv = []"
    using ex_bucketed
    by (simp add: ex_convs_def conv_key_def truthy_def ex_conv_def ascii_def)
  have c2: "map_of (conv_hwm ex_state) (ascii ''c2'') = None
          \<and> map_of (seen ex_state) (ascii ''c2'') = None"
    by (simp add: ex_state_def ascii_def)
  have committed: "commit ex_state
        (snd (build_daily_raw ex_env ex_convs ex_state 16000 (Some 739519)))
      = \<lparr>version = 1, conv_hwm = [(ascii ''c1'', 1758844800)],
         seen = [(ascii ''c1'', [ascii ''m0'', ascii ''m1''])]\<rparr>"
    by (simp only: ex_progress ex_commit)
  have kept: "map_of (conv_hwm (commit ex_state
          (snd (build_daily_raw ex_env ex_convs ex_state 16000 (Some 739519))))) (ascii ''c2'')
        = map_of (conv_hwm ex_state) (ascii ''c2'')
      \<and> map_of (seen (commit ex_state
          (snd (build_daily_raw ex_env ex_convs ex_state 16000 (Some 739519))))) (ascii ''c2'')
        = map_of (seen ex_state) (ascii ''c2'')"
    using commit_is_monotone [of ex_state "ascii ''c2''"
        "snd (build_daily_raw ex_env ex_convs ex_state 16000 (Some 739519))"
        ex_env ex_convs 16000 "Some 739519"] hyp
    by blast
  have c1: "hwm_get (conv_hwm ex_state) (ascii ''c1'') = 5"
    by (simp add: hwm_get_def ex_state_def)
  show ?thesis
    using kept c2 c1 by (simp add: committed hwm_get_def seen_get_def)
qed

section \<open>Commit only after every publish\<close>

lemma publish_loop_all_ok:
  assumes "\<forall>d \<in> set days. publish_ok publish dsums d"
  shows "publish_loop publish dsums succ days = (succ @ days, Inr (succ @ days))"
  using assms
proof (induction days arbitrary: succ)
  case Nil
  show ?case by simp
next
  case (Cons day days)
  then have ok: "publish_ok publish dsums day" and rest: "\<forall>d \<in> set days. publish_ok publish dsums d"
    by auto
  from ok obtain url where u: "publish day (page_markdown dsums day) = PublishUrl url" "url \<noteq> []"
    by (auto simp: publish_ok_def split: publish_result.splits)
  show ?case using Cons.IH [OF rest, of "succ @ [day]"] u by simp
qed

lemma publish_loop_first_failure:
  assumes "\<forall>d \<in> set ok_days. publish_ok publish dsums d" and "\<not> publish_ok publish dsums bad"
  shows "publish_loop publish dsums succ (ok_days @ bad # rest)
         = (succ @ ok_days @ [bad],
            Inl (if publish bad (page_markdown dsums bad) = PublishRaised
                 then PublishException bad else SystemExit bad))"
  using assms(1)
proof (induction ok_days arbitrary: succ)
  case Nil
  show ?case using assms(2)
    by (auto simp: publish_ok_def split: publish_result.splits)
next
  case (Cons day days)
  then have ok: "publish_ok publish dsums day" and rest: "\<forall>d \<in> set days. publish_ok publish dsums d"
    by auto
  from ok obtain url where u: "publish day (page_markdown dsums day) = PublishUrl url" "url \<noteq> []"
    by (auto simp: publish_ok_def split: publish_result.splits)
  show ?case using Cons.IH [OF rest, of "succ @ [day]"] u by simp
qed

lemma split_at_first_failure:
  assumes "\<not> (\<forall>d \<in> set days. P d)"
  shows "\<exists>ok_days bad rest. days = ok_days @ bad # rest \<and> (\<forall>d \<in> set ok_days. P d) \<and> \<not> P bad"
proof -
  from assms have ne: "dropWhile P days \<noteq> []" by (simp add: dropWhile_eq_Nil_conv)
  then obtain bad rest where dr: "dropWhile P days = bad # rest" by (cases "dropWhile P days") auto
  then have "\<not> P bad" using hd_dropWhile [OF ne] by simp
  moreover have "days = takeWhile P days @ bad # rest"
    using takeWhile_dropWhile_id [of P days] dr by simp
  moreover have "\<forall>d \<in> set (takeWhile P days). P d" by (auto dest: set_takeWhileD)
  ultimately show ?thesis by blast
qed

lemma commit_needs_all_ok:
  assumes "file_after (publish_and_commit publish dsums days st prog file) \<noteq> file"
  shows "\<forall>d \<in> set days. publish_ok publish dsums d"
proof (rule ccontr)
  assume "\<not> (\<forall>d \<in> set days. publish_ok publish dsums d)"
  from split_at_first_failure [OF this] obtain ok_days bad rest where
    "days = ok_days @ bad # rest" "\<forall>d \<in> set ok_days. publish_ok publish dsums d"
    "\<not> publish_ok publish dsums bad" by blast
  then have "file_after (publish_and_commit publish dsums days st prog file) = file"
    using publish_loop_first_failure [of ok_days publish dsums bad "[]" rest]
    by (simp add: publish_and_commit_def)
  with assms show False by simp
qed

lemma publish_and_commit_error_keeps_file:
  "run_outcome (publish_and_commit publish dsums days st prog file) \<noteq> None
   \<Longrightarrow> file_after (publish_and_commit publish dsums days st prog file) = file"
  by (auto simp: publish_and_commit_def split: prod.splits sum.splits)

lemma main_daily_error_keeps_file:
  "run_outcome (main_daily e summarize sections_of publish convs fd file) \<noteq> None
   \<Longrightarrow> file_after (main_daily e summarize sections_of publish convs fd file) = file"
  unfolding main_daily_def Let_def
  by (auto split: prod.splits option.splits
        intro!: publish_and_commit_error_keeps_file)

text \<open>
  C1. The state file changes only if the publish of every day succeeded. If the publish
  of some day fails, the days before it having succeeded, then \<open>notion_create_page\<close> was
  called for those days and the failing one and for no later day, the run ends with an
  error naming the failing day, and the state file is as it was. The same holds for the
  whole daily part of \<open>main\<close>: a run that ends with an error leaves the file as it was.
\<close>

theorem checkpoint_commit_requires_every_publish:
  "(file_after (publish_and_commit publish dsums days st prog file) \<noteq> file
      \<longrightarrow> (\<forall>d \<in> set days. publish_ok publish dsums d))
   \<and> ((\<forall>d \<in> set ok_days. publish_ok publish dsums d) \<and> \<not> publish_ok publish dsums bad
      \<longrightarrow> publish_calls (publish_and_commit publish dsums (ok_days @ bad # rest) st prog file)
            = ok_days @ [bad]
          \<and> run_outcome (publish_and_commit publish dsums (ok_days @ bad # rest) st prog file)
            = Some (if publish bad (page_markdown dsums bad) = PublishRaised
                    then PublishException bad else SystemExit bad)
          \<and> file_after (publish_and_commit publish dsums (ok_days @ bad # rest) st prog file)
            = file)
   \<and> (run_outcome (main_daily e summarize sections_of publish convs from_date file) \<noteq> None
      \<longrightarrow> file_after (main_daily e summarize sections_of publish convs from_date file) = file)"
proof (intro conjI impI)
  assume "file_after (publish_and_commit publish dsums days st prog file) \<noteq> file"
  then show "\<forall>d \<in> set days. publish_ok publish dsums d" by (rule commit_needs_all_ok)
next
  assume a: "(\<forall>d \<in> set ok_days. publish_ok publish dsums d) \<and> \<not> publish_ok publish dsums bad"
  then have loop: "publish_loop publish dsums [] (ok_days @ bad # rest)
         = ([] @ ok_days @ [bad],
            Inl (if publish bad (page_markdown dsums bad) = PublishRaised
                 then PublishException bad else SystemExit bad))"
    by (intro publish_loop_first_failure) auto
  show "publish_calls (publish_and_commit publish dsums (ok_days @ bad # rest) st prog file)
            = ok_days @ [bad]"
    by (simp add: publish_and_commit_def loop)
  show "run_outcome (publish_and_commit publish dsums (ok_days @ bad # rest) st prog file)
            = Some (if publish bad (page_markdown dsums bad) = PublishRaised
                    then PublishException bad else SystemExit bad)"
    by (simp add: publish_and_commit_def loop)
  show "file_after (publish_and_commit publish dsums (ok_days @ bad # rest) st prog file) = file"
    by (simp add: publish_and_commit_def loop)
next
  assume "run_outcome (main_daily e summarize sections_of publish convs from_date file) \<noteq> None"
  then show "file_after (main_daily e summarize sections_of publish convs from_date file) = file"
    by (rule main_daily_error_keeps_file)
qed

text \<open>
  Witness for C1: of the days 2025-09-26, 2025-09-27 and 2025-09-28 the publisher accepts
  the first only; the run calls it for the first two days, exits on 2025-09-27 and keeps
  the file. With the day 2025-09-26 alone the file is replaced by the merged state.
\<close>

theorem checkpoint_commit_requires_every_publish_witness:
  "publish_ok ex_publish [] (ascii ''2025-09-26'')
   \<and> \<not> publish_ok ex_publish [] (ascii ''2025-09-27'')
   \<and> publish_calls (publish_and_commit ex_publish []
         ([ascii ''2025-09-26''] @ ascii ''2025-09-27'' # [ascii ''2025-09-28''])
         ex_state [(ascii ''c1'', [ascii ''m1''], 1758844800)] (Some ex_state))
       = [ascii ''2025-09-26'', ascii ''2025-09-27'']
   \<and> run_outcome (publish_and_commit ex_publish []
         ([ascii ''2025-09-26''] @ ascii ''2025-09-27'' # [ascii ''2025-09-28''])
         ex_state [(ascii ''c1'', [ascii ''m1''], 1758844800)] (Some ex_state))
       = Some (SystemExit (ascii ''2025-09-27''))
   \<and> file_after (publish_and_commit ex_publish []
         ([ascii ''2025-09-26''] @ ascii ''2025-09-27'' # [ascii ''2025-09-28''])
         ex_state [(ascii ''c1'', [ascii ''m1''], 1758844800)] (Some ex_state))
       = Some ex_state
   \<and> file_after (publish_and_commit ex_publish [] [ascii ''2025-09-26'']
         ex_state [(ascii ''c1'', [ascii ''m1''], 1758844800)] (Some ex_state))
       \<noteq> Some ex_state
   \<and> run_outcome (main_daily ex_env (\<lambda>t. Some t) (\<lambda>md. []) (\<lambda>day md. PublishNone) ex_convs
         (Some 739519) (Some ex_state)) \<noteq> None
   \<and> file_after (main_daily ex_env (\<lambda>t. Some t) (\<lambda>md. []) (\<lambda>day md. PublishNone) ex_convs
         (Some 739519) (Some ex_state)) = Some ex_state"
proof -
  have ok: "publish_ok ex_publish [] (ascii ''2025-09-26'')"
    by (simp add: publish_ok_def ex_publish_def) (simp add: ascii_def)
  have bad: "\<not> publish_ok ex_publish [] (ascii ''2025-09-27'')"
    by (simp add: publish_ok_def ex_publish_def ascii_def)
  have raised: "ex_publish (ascii ''2025-09-27'') (page_markdown [] (ascii ''2025-09-27''))
      \<noteq> PublishRaised"
    by (simp add: ex_publish_def)
  have changed: "file_after (publish_and_commit ex_publish [] [ascii ''2025-09-26'']
         ex_state [(ascii ''c1'', [ascii ''m1''], 1758844800)] (Some ex_state))
       \<noteq> Some ex_state"
    by (simp add: publish_and_commit_def ex_publish_def ex_commit)
      (simp add: ex_state_def ascii_def)
  have failed: "run_outcome (main_daily ex_env (\<lambda>t. Some t) (\<lambda>md. []) (\<lambda>day md. PublishNone)
         ex_convs (Some 739519) (Some ex_state)) \<noteq> None"
    by (simp add: ex_main_fail)
  have kept: "file_after (main_daily ex_env (\<lambda>t. Some t) (\<lambda>md. []) (\<lambda>day md. PublishNone)
         ex_convs (Some 739519) (Some ex_state)) = Some ex_state"
    using failed
      checkpoint_commit_requires_every_publish [of "\<lambda>day md. PublishNone" _ _ _ _
        "Some ex_state" _ _ _ ex_env "\<lambda>t. Some t" "\<lambda>md. []" ex_convs "Some 739519"]
    by blast
  show ?thesis
    using ok bad raised changed failed kept
      checkpoint_commit_requires_every_publish [of ex_publish "[]" "[ascii ''2025-09-26'']"
        ex_state "[(ascii ''c1'', [ascii ''m1''], 1758844800)]" "Some ex_state"
        "[ascii ''2025-09-26'']" "ascii ''2025-09-27'' " "[ascii ''2025-09-28'']"]
    by simp
qed

section \<open>Idempotence of a second run\<close>

lemma passes_checkpoint_mono:
  assumes "passes_checkpoint hw' sn' ts mid" and "hw \<le> hw'" and "set sn \<subseteq> set sn'"
  shows "passes_checkpoint hw sn ts mid"
  using assms by (cases ts) (auto simp: passes_checkpoint_def split: if_splits)

lemma ts_to_day_None_iff:
  "ts_to_day e fd ts = None \<longleftrightarrow>
     (\<exists>t d f. ts = Some t \<and> jst_date e t = Some d \<and> fd = Some f \<and> d < f)"
  by (auto simp: ts_to_day_def split: option.splits)

lemma ts_to_day_None_env:
  assumes "jst_date e2 = jst_date e1"
  shows "ts_to_day e2 fd ts = None \<longleftrightarrow> ts_to_day e1 fd ts = None"
  by (simp add: ts_to_day_None_iff assms)

lemma update_mem_same: "(k, v) \<in> set (AList.update k v al)"
  by (induction al) auto

lemma update_mem_other: "k' \<noteq> k \<Longrightarrow> (k, v) \<in> set al \<Longrightarrow> (k, v) \<in> set (AList.update k' v' al)"
  by (induction al) auto

lemma progress_entry_kept:
  assumes "(k, v) \<in> set p" and "k \<notin> conv_key ` set convs"
  shows "(k, v) \<in> set (snd (foldl (conv_step e fd st) (b, p) convs))"
  using assms
proof (induction convs arbitrary: b p)
  case Nil
  then show ?case by simp
next
  case (Cons conv convs)
  obtain b' p' where st1: "conv_step e fd st (b, p) conv = (b', p')"
    by (cases "conv_step e fd st (b, p) conv") auto
  then have p': "p' = (if fst (conv_progress e fd st conv) \<noteq> []
        then AList.update (conv_key conv) (conv_progress e fd st conv) p else p)"
    using conv_step_snd [of e fd st b p conv] by simp
  from Cons.prems have ne: "conv_key conv \<noteq> k" and rest: "k \<notin> conv_key ` set convs" by auto
  have "(k, v) \<in> set p'" using p' Cons.prems(1) ne by (simp add: update_mem_other)
  from Cons.IH [OF this rest, of b'] st1 show ?case by simp
qed

lemma progress_entry_present:
  assumes "distinct (map conv_key convs)" and "conv \<in> set convs"
    and "fst (conv_progress e fd st conv) \<noteq> []"
  shows "(conv_key conv, conv_progress e fd st conv)
           \<in> set (snd (foldl (conv_step e fd st) (b, p) convs))"
  using assms(1,2)
proof (induction convs arbitrary: b p)
  case Nil
  then show ?case by simp
next
  case (Cons c convs)
  obtain b' p' where st1: "conv_step e fd st (b, p) c = (b', p')"
    by (cases "conv_step e fd st (b, p) c") auto
  then have p': "p' = (if fst (conv_progress e fd st c) \<noteq> []
        then AList.update (conv_key c) (conv_progress e fd st c) p else p)"
    using conv_step_snd [of e fd st b p c] by simp
  from Cons.prems(1) have nk: "conv_key c \<notin> conv_key ` set convs" and d: "distinct (map conv_key convs)"
    by auto
  show ?case
  proof (cases "conv = c")
    case True
    with p' assms(3) have "(conv_key conv, conv_progress e fd st conv) \<in> set p'"
      by (simp add: update_mem_same)
    from progress_entry_kept [OF this, of convs e fd st b'] nk True st1 show ?thesis by simp
  next
    case False
    with Cons.prems(2) have "conv \<in> set convs" by simp
    from Cons.IH [OF d this, of b' p'] st1 show ?thesis by simp
  qed
qed

lemma build_progress:
  "snd (build_daily_raw e convs st mc fd) = snd (foldl (conv_step e fd st) ([], []) convs)"
  by (simp add: build_daily_raw_def split: prod.splits)

lemma second_run_nothing_bucketed:
  assumes dist: "distinct (map conv_key convs)"
    and jd: "jst_date e2 = jst_date e1" and ph: "py_hash e2 = py_hash e1"
    and conv: "conv \<in> set convs"
  shows "bucketed_events e2 fd (commit st (snd (build_daily_raw e1 convs st mc fd))) conv = []"
proof -
  let ?prog = "snd (build_daily_raw e1 convs st mc fd)"
  let ?st1 = "commit st ?prog"
  let ?k = "conv_key conv"
  let ?hw = "hwm_get (conv_hwm st) ?k" and ?sn = "seen_get (seen st) ?k"
  let ?hw' = "hwm_get (conv_hwm ?st1) ?k" and ?sn' = "seen_get (seen ?st1) ?k"
  have "\<not> is_bucketed e2 fd ?hw' ?sn' ev" if ev: "ev \<in> set (iter_messages (py_hash e2) conv)" for ev
  proof
    assume b2: "is_bucketed e2 fd ?hw' ?sn' ev"
    then have p2: "passes_checkpoint ?hw' ?sn' (ev_ts ev) (ev_mid ev)"
      and d2: "ts_to_day e2 fd (ev_ts ev) \<noteq> None" by (auto simp: is_bucketed_def)
    have p1: "passes_checkpoint ?hw ?sn (ev_ts ev) (ev_mid ev)"
      using p2 commit_hwm_mono [of st ?k ?prog] commit_seen_mono [of st ?k ?prog]
      by (rule passes_checkpoint_mono)
    have d1: "ts_to_day e1 fd (ev_ts ev) \<noteq> None"
      using d2 ts_to_day_None_env [OF jd] by simp
    have b1: "is_bucketed e1 fd ?hw ?sn ev" using p1 d1 by (simp add: is_bucketed_def)
    have in1: "ev \<in> set (bucketed_events e1 fd st conv)"
      using b1 ev ph by (simp add: bucketed_events_def)
    then have ne: "fst (conv_progress e1 fd st conv) \<noteq> []"
      using conv_progress_empty_iff [of e1 fd st conv] by auto
    have mid: "ev_mid ev \<in> set (fst (conv_progress e1 fd st conv))"
      using in1 conv_progress_seen [of e1 fd st conv] by auto
    have "(?k, conv_progress e1 fd st conv) \<in> set ?prog"
      unfolding build_progress using dist conv ne by (rule progress_entry_present)
    then have "(?k, fst (conv_progress e1 fd st conv), snd (conv_progress e1 fd st conv)) \<in> set ?prog"
      by simp
    then have "set (fst (conv_progress e1 fd st conv)) \<subseteq> set ?sn'"
      by (rule commit_has_new)
    with mid have "ev_mid ev \<in> set ?sn'" by auto
    with p2 show False by (simp add: passes_checkpoint_def split: if_splits)
  qed
  then show ?thesis by (simp add: bucketed_events_def filter_empty_conv)
qed

lemma build_nothing:
  assumes "\<forall>conv \<in> set convs. bucketed_events e fd st conv = []"
  shows "build_daily_raw e convs st mc fd = ([], [])"
proof -
  have "foldl (conv_step e fd st) acc convs = acc" for acc
    using assms by (induction convs arbitrary: acc) (simp_all add: conv_step_identity)
  then show ?thesis by (simp add: build_daily_raw_def)
qed

lemma main_daily_nothing:
  assumes "build_daily_raw e convs (load_state file) 16000 fd = ([], [])"
  shows "main_daily e summarize sections_of publish convs fd file
         = \<lparr>publish_calls = [], run_outcome = None, file_after = file\<rparr>"
  using assms
  by (simp add: main_daily_def combined_text_of_def summarizer_inputs_def strip_def
      publish_and_commit_def)

text \<open>
  When the conversations of the export have pairwise distinct ids and the second run
  gives every message the id the first run gave it (the two runs have the same hash
  function, and the same date conversion and floor), the second run over the same export
  finds nothing: the day-to-text mapping and the progress are empty, the publisher is called
  for no day and the state file stays as the first run wrote it.
\<close>

lemma second_run_empty_with_same_ids:
  assumes "distinct (map conv_key convs)"
    and "jst_date e2 = jst_date e1" and "py_hash e2 = py_hash e1"
  shows "build_daily_raw e2 convs
           (commit st (snd (build_daily_raw e1 convs st max_chars from_date)))
           max_chars' from_date = ([], [])
    \<and> main_daily e2 summarize sections_of publish convs from_date
          (Some (commit st (snd (build_daily_raw e1 convs st 16000 from_date))))
        = \<lparr>publish_calls = [], run_outcome = None,
           file_after = Some (commit st (snd (build_daily_raw e1 convs st 16000 from_date)))\<rparr>"
proof -
  have empty: "build_daily_raw e2 convs
           (commit st (snd (build_daily_raw e1 convs st mc from_date))) mc' from_date = ([], [])"
    for mc mc'
    using second_run_nothing_bucketed [OF assms, of _ from_date st mc]
    by (intro build_nothing) simp
  have "build_daily_raw e2 convs
          (load_state (Some (commit st (snd (build_daily_raw e1 convs st 16000 from_date)))))
          16000 from_date = ([], [])"
    using empty [of 16000 16000] by (simp add: load_state_def)
  then show ?thesis using empty [of max_chars max_chars'] by (simp add: main_daily_nothing)
qed

text \<open>
  Two conversations that share an id (here two without \<open>id\<close> and \<open>conversation_id\<close>, both
  \<open>(unknown)\<close>): each overwrites the progress entry of the id, so the merge records the ids
  of the last one only. Over \<open>dup_convs\<close>, starting without a state file, the first run
  publishes 2025-09-26 and commits \<open>dup_state\<close>, which holds \<open>m2\<close> and not \<open>m1\<close>; a second
  run over the same export buckets \<open>m1\<close> again and changes the state file.
\<close>

lemma second_run_with_shared_conversation_id:
  "run_outcome (main_daily ex_env (\<lambda>t. Some t) (\<lambda>md. []) ex_publish dup_convs (Some 739519)
       None) = None
   \<and> file_after (main_daily ex_env (\<lambda>t. Some t) (\<lambda>md. []) ex_publish dup_convs (Some 739519)
       None) = Some dup_state
   \<and> snd (build_daily_raw ex_env dup_convs dup_state 16000 (Some 739519))
       = [(ascii ''(unknown)'', [ascii ''m1''], 1758848400)]
   \<and> publish_calls (main_daily ex_env (\<lambda>t. Some t) (\<lambda>md. []) ex_publish dup_convs
       (Some 739519) (Some dup_state)) = [ascii ''2025-09-26'']
   \<and> file_after (main_daily ex_env (\<lambda>t. Some t) (\<lambda>md. []) ex_publish dup_convs (Some 739519)
       (Some dup_state)) \<noteq> Some dup_state"
  by (simp add: dup_run1 dup_run2 dup_build2) (simp add: dup_state_def)

text \<open>
  The two runs over \<open>ex_flat_conv\<close>: the first in \<open>ex_env\<close> without a state file, the second
  in \<open>ex_env2\<close> from the state the first one wrote.
\<close>

lemma flat_build1:
  "build_daily_raw ex_env [ex_flat_conv] (load_state None) 16000 (Some 739519)
     = ([(ascii ''2025-09-30'', [10, 45, 32, 91, 12518, 12540, 12470, 12540, 93, 32, 116, 65372, 104, 105])],
        [(ascii ''c1'', [ascii ''legacy-0''], - 1)])"
  by (simp add: build_daily_raw_def conv_step_def event_step_def iter_messages_def
      legacy_event_def conv_key_def title_of_def truthy_def passes_checkpoint_def ts_to_day_def
      hwm_get_def seen_get_def set_add_def ex_env_def ex_flat_conv_def ex_anon_msg_def
      Let_def load_state_def str_int_def
      bucket_line_def cap_text_def strip_def py_isspace_def ascii_def)

lemma flat_build2:
  "build_daily_raw ex_env2 [ex_flat_conv] ex_flat_state 16000 (Some 739519)
     = ([(ascii ''2025-09-30'', [10, 45, 32, 91, 12518, 12540, 12470, 12540, 93, 32, 116, 65372, 104, 105])],
        [(ascii ''c1'', [ascii ''legacy-1''], - 1)])"
  by (simp add: build_daily_raw_def conv_step_def event_step_def iter_messages_def
      legacy_event_def conv_key_def title_of_def truthy_def passes_checkpoint_def ts_to_day_def
      hwm_get_def seen_get_def set_add_def ex_env_def ex_env2_def ex_flat_conv_def ex_anon_msg_def
      ex_flat_state_def Let_def str_int_def
      bucket_line_def cap_text_def strip_def py_isspace_def ascii_def)

lemma flat_run1:
  "main_daily ex_env (\<lambda>t. Some t) (\<lambda>md. []) (\<lambda>day md. PublishUrl (ascii ''u'')) [ex_flat_conv]
       (Some 739519) None
     = \<lparr>publish_calls = [ascii ''2025-09-30''], run_outcome = None,
        file_after = Some ex_flat_state\<rparr>"
proof -
  have c: "commit (load_state None) [(ascii ''c1'', [ascii ''legacy-0''], - 1)] = ex_flat_state"
    by (simp add: commit_def commit_entry_def load_state_def hwm_get_def seen_get_def
        ex_flat_state_def)
  show ?thesis
    by (simp add: main_daily_def flat_build1 c combined_text_of_def summarizer_inputs_def
        MAX_CHARS_PER_REQUEST_def strip_def py_isspace_def publish_and_commit_def
        page_markdown_def) (simp add: ascii_def)
qed

lemma flat_run2:
  "main_daily ex_env2 (\<lambda>t. Some t) (\<lambda>md. []) (\<lambda>day md. PublishUrl (ascii ''u'')) [ex_flat_conv]
       (Some 739519) (Some ex_flat_state)
     = \<lparr>publish_calls = [ascii ''2025-09-30''], run_outcome = None,
        file_after = Some \<lparr>version = 1, conv_hwm = [],
                seen = [(ascii ''c1'', [ascii ''legacy-0'', ascii ''legacy-1''])]\<rparr>\<rparr>"
proof -
  have l: "load_state (Some ex_flat_state) = ex_flat_state" by (simp add: load_state_def)
  have c: "commit ex_flat_state [(ascii ''c1'', [ascii ''legacy-1''], - 1)]
     = \<lparr>version = 1, conv_hwm = [],
                seen = [(ascii ''c1'', [ascii ''legacy-0'', ascii ''legacy-1''])]\<rparr>"
    by (simp add: commit_def commit_entry_def hwm_get_def seen_get_def ex_flat_state_def)
  show ?thesis
    by (simp add: main_daily_def l flat_build2 c combined_text_of_def summarizer_inputs_def
        MAX_CHARS_PER_REQUEST_def strip_def py_isspace_def publish_and_commit_def
        page_markdown_def) (simp add: ascii_def)
qed

text \<open>
  C2 fails in the program for a flat-list message without \<open>id\<close> and without
  \<open>create_time\<close>. Its id is \<open>legacy-\<close> followed by the interpreter's hash of (role, text,
  timestamp), and without a timestamp the id in the seen-list is all that keeps it from
  being bucketed again. The first run over \<open>ex_flat_conv\<close> publishes the day and commits
  the id \<open>legacy-0\<close>; the second run, over the same export with the same floor and on the
  same day, in an interpreter whose hash differs, gives the message the id \<open>legacy-1\<close>,
  buckets it again, publishes the day again and changes the state file.
\<close>

theorem second_run_rebuckets_message_with_hashed_id:
  "py_hash ex_env2 \<noteq> py_hash ex_env
   \<and> jst_date ex_env2 = jst_date ex_env \<and> jst_today ex_env2 = jst_today ex_env
   \<and> main_daily ex_env (\<lambda>t. Some t) (\<lambda>md. []) (\<lambda>day md. PublishUrl (ascii ''u''))
        [ex_flat_conv] (Some 739519) None
       = \<lparr>publish_calls = [ascii ''2025-09-30''], run_outcome = None,
          file_after = Some ex_flat_state\<rparr>
   \<and> snd (build_daily_raw ex_env2 [ex_flat_conv] ex_flat_state 16000 (Some 739519))
       = [(ascii ''c1'', [ascii ''legacy-1''], - 1)]
   \<and> map fst (fst (build_daily_raw ex_env2 [ex_flat_conv] ex_flat_state 16000 (Some 739519)))
       = [ascii ''2025-09-30'']
   \<and> publish_calls (main_daily ex_env2 (\<lambda>t. Some t) (\<lambda>md. [])
        (\<lambda>day md. PublishUrl (ascii ''u'')) [ex_flat_conv] (Some 739519) (Some ex_flat_state))
       = [ascii ''2025-09-30'']
   \<and> file_after (main_daily ex_env2 (\<lambda>t. Some t) (\<lambda>md. [])
        (\<lambda>day md. PublishUrl (ascii ''u'')) [ex_flat_conv] (Some 739519) (Some ex_flat_state))
       \<noteq> Some ex_flat_state"
proof -
  have h: "py_hash ex_env2 \<noteq> py_hash ex_env"
    by (simp add: ex_env2_def ex_env_def fun_eq_iff)
  have j: "jst_date ex_env2 = jst_date ex_env \<and> jst_today ex_env2 = jst_today ex_env"
    by (simp add: ex_env2_def)
  show ?thesis
    using h j by (simp add: flat_run1 flat_run2 flat_build2) (simp add: ex_flat_state_def ascii_def)
qed

section \<open>The checkpoint filter on the checkpoints the program writes\<close>


















section \<open>Synthesized message ids\<close>

lemma digits_small: "n < 10 \<Longrightarrow> digits n = [48 + n]"
  by (subst digits.simps) (simp del: digits.simps)

lemma digits_large: "\<not> n < 10 \<Longrightarrow> digits n = digits (n div 10) @ [48 + n mod 10]"
  by (subst digits.simps) (simp del: digits.simps)

lemma digits_ne: "digits n \<noteq> []"
  by (cases "n < 10") (simp_all del: digits.simps add: digits_small digits_large)

lemma digits_ge: "c \<in> set (digits n) \<Longrightarrow> 48 \<le> c"
proof (induction n arbitrary: c rule: digits.induct)
  case (1 n)
  show ?case
  proof (cases "n < 10")
    case True
    with "1.prems" show ?thesis by (simp del: digits.simps add: digits_small)
  next
    case False
    with "1.prems" have "c \<in> set (digits (n div 10)) \<or> c = 48 + n mod 10"
      by (auto simp del: digits.simps simp add: digits_large)
    then show ?thesis
    proof
      assume "c \<in> set (digits (n div 10))"
      with False show ?thesis by (rule "1.IH")
    next
      assume "c = 48 + n mod 10"
      then show ?thesis by (simp del: digits.simps)
    qed
  qed
qed

lemma digits_inj: "digits m = digits n \<Longrightarrow> m = n"
proof (induction m arbitrary: n rule: digits.induct)
  case (1 m)
  show ?case
  proof (cases "m < 10")
    case m: True
    show ?thesis
    proof (cases "n < 10")
      case True
      with m "1.prems" show ?thesis
        by (simp del: digits.simps add: digits_small)
    next
      case False
      with m "1.prems" have "[48 + m] = digits (n div 10) @ [48 + n mod 10]"
        by (simp del: digits.simps add: digits_small digits_large)
      then have "digits (n div 10) = []" by (simp del: digits.simps add: Cons_eq_append_conv)
      with digits_ne show ?thesis by blast
    qed
  next
    case m: False
    show ?thesis
    proof (cases "n < 10")
      case True
      with m "1.prems" have "digits (m div 10) @ [48 + m mod 10] = [48 + n]"
        by (simp del: digits.simps add: digits_small digits_large)
      then have "digits (m div 10) = []" by (simp del: digits.simps add: append_eq_Cons_conv)
      with digits_ne show ?thesis by blast
    next
      case False
      with m "1.prems" have "digits (m div 10) @ [48 + m mod 10] = digits (n div 10) @ [48 + n mod 10]"
        by (simp del: digits.simps add: digits_large)
      then have d: "digits (m div 10) = digits (n div 10)" and r: "m mod 10 = n mod 10"
        by (simp_all del: digits.simps)
      from m d have "m div 10 = n div 10" by (rule "1.IH")
      with r show ?thesis by (metis div_mult_mod_eq)
    qed
  qed
qed

lemma str_int_inj: "str_int i = str_int j \<Longrightarrow> i = j"
proof -
  assume eq: "str_int i = str_int j"
  have nd: "digits n \<noteq> 45 # xs" for n xs
  proof
    assume "digits n = 45 # xs"
    then have "45 \<in> set (digits n)" by (simp del: digits.simps)
    from digits_ge [OF this] show False by simp
  qed
  show "i = j"
  proof (cases "i < 0")
    case i: True
    show ?thesis
    proof (cases "j < 0")
      case True
      with i eq have "digits (nat (- i)) = digits (nat (- j))"
        by (simp del: digits.simps add: str_int_def)
      then have "nat (- i) = nat (- j)" by (rule digits_inj)
      with i True show ?thesis by simp
    next
      case False
      with i eq have "digits (nat j) = 45 # digits (nat (- i))"
        by (simp del: digits.simps add: str_int_def)
      with nd show ?thesis by blast
    qed
  next
    case i: False
    show ?thesis
    proof (cases "j < 0")
      case True
      with i eq have "digits (nat i) = 45 # digits (nat (- j))"
        by (simp del: digits.simps add: str_int_def)
      with nd show ?thesis by blast
    next
      case False
      with i eq have "digits (nat i) = digits (nat j)"
        by (simp del: digits.simps add: str_int_def)
      then have "nat i = nat j" by (rule digits_inj)
      with i False show ?thesis by simp
    qed
  qed
qed

text \<open>
  In a graph-shaped record the synthesized id is made from the node key: the two messages
  of \<open>ex_graph_conv\<close> agree in role, text and timestamp and get different ids, whatever
  the hash function is.
\<close>

lemma graph_ids_from_node_keys:
  "map (\<lambda>ev. (ev_role ev, ev_text ev, ev_ts ev)) (iter_messages (\<lambda>x. 0) ex_graph_conv)
     = [(ascii ''user'', ascii ''hi'', None), (ascii ''user'', ascii ''hi'', None)]
   \<and> map ev_mid (iter_messages (\<lambda>x. 0) ex_graph_conv)
     = [ascii ''mapping-n1'', ascii ''mapping-n2'']
   \<and> ascii ''mapping-n1'' \<noteq> ascii ''mapping-n2''"
  by (simp add: iter_messages_def mapping_event_def ex_graph_conv_def ex_anon_msg_def
      conv_key_def title_of_def truthy_def ascii_def Let_def)

text \<open>
  C4 fails in the program for the flat-list shape. For a message without an id of its own
  (with a role and a text, so that it is emitted), the id is \<open>legacy-\<close> followed by the
  decimal value of the interpreter's hash of (role, text, timestamp): the ids that two
  runs give the message are equal if and only if the hash functions of the two
  interpreters agree on that triple, for the single fallback step and for the whole
  normalizer on a flat-list conversation.
\<close>

theorem legacy_id_follows_interpreter_hash:
  assumes "\<not> truthy (msg_id m)" and "truthy (msg_role m)"
    and "truthy (content_text (msg_content m))"
  shows "(map ev_mid (legacy_event h1 conv_id title m)
            = map ev_mid (legacy_event h2 conv_id title m)
          \<longleftrightarrow> h1 (the (msg_role m), the (content_text (msg_content m)), msg_create_time m)
              = h2 (the (msg_role m), the (content_text (msg_content m)), msg_create_time m))
    \<and> (map ev_mid (iter_messages h1 (conv\<lparr>conv_mapping := [], conv_messages := [m]\<rparr>))
            = map ev_mid (iter_messages h2 (conv\<lparr>conv_mapping := [], conv_messages := [m]\<rparr>))
          \<longleftrightarrow> h1 (the (msg_role m), the (content_text (msg_content m)), msg_create_time m)
              = h2 (the (msg_role m), the (content_text (msg_content m)), msg_create_time m))"
proof -
  have one: "map ev_mid (legacy_event h1 c t m) = map ev_mid (legacy_event h2 c t m)
      \<longleftrightarrow> h1 (the (msg_role m), the (content_text (msg_content m)), msg_create_time m)
          = h2 (the (msg_role m), the (content_text (msg_content m)), msg_create_time m)"
    for c t
    using assms
    by (auto simp del: digits.simps simp add: legacy_event_def Let_def dest: str_int_inj)
  have "iter_messages h (conv\<lparr>conv_mapping := [], conv_messages := [m]\<rparr>)
      = legacy_event h (conv_key (conv\<lparr>conv_mapping := [], conv_messages := [m]\<rparr>))
          (title_of (conv\<lparr>conv_mapping := [], conv_messages := [m]\<rparr>)) m" for h
    by (simp add: iter_messages_def Let_def)
  then show ?thesis using one by simp
qed

text \<open>
  Witness for C4: the message of \<open>ex_flat_conv\<close> gets the id \<open>legacy-0\<close> under the hash of
  \<open>ex_env\<close> and \<open>legacy-1\<close> under the hash of \<open>ex_env2\<close>, its role, text and timestamp being
  the same in both.
\<close>

theorem legacy_id_follows_interpreter_hash_witness:
  "\<not> truthy (msg_id ex_anon_msg)
   \<and> map (\<lambda>ev. (ev_role ev, ev_text ev, ev_ts ev)) (iter_messages (py_hash ex_env) ex_flat_conv)
       = map (\<lambda>ev. (ev_role ev, ev_text ev, ev_ts ev)) (iter_messages (py_hash ex_env2) ex_flat_conv)
   \<and> map ev_mid (iter_messages (py_hash ex_env) ex_flat_conv) = [ascii ''legacy-0'']
   \<and> map ev_mid (iter_messages (py_hash ex_env2) ex_flat_conv) = [ascii ''legacy-1'']
   \<and> map ev_mid (iter_messages (py_hash ex_env) ex_flat_conv)
       \<noteq> map ev_mid (iter_messages (py_hash ex_env2) ex_flat_conv)"
proof -
  have a: "\<not> truthy (msg_id ex_anon_msg)" by (simp add: truthy_def ex_anon_msg_def)
  have b: "truthy (msg_role ex_anon_msg)" by (simp add: truthy_def ex_anon_msg_def ascii_def)
  have c: "truthy (content_text (msg_content ex_anon_msg))"
    by (simp add: truthy_def ex_anon_msg_def ascii_def)
  have f: "ex_flat_conv\<lparr>conv_mapping := [], conv_messages := [ex_anon_msg]\<rparr> = ex_flat_conv"
    by (simp add: ex_flat_conv_def)
  have h: "py_hash ex_env (the (msg_role ex_anon_msg), the (content_text (msg_content ex_anon_msg)),
              msg_create_time ex_anon_msg)
         \<noteq> py_hash ex_env2 (the (msg_role ex_anon_msg),
              the (content_text (msg_content ex_anon_msg)), msg_create_time ex_anon_msg)"
    by (simp add: ex_env_def ex_env2_def)
  have d: "map ev_mid (iter_messages (py_hash ex_env) ex_flat_conv)
       \<noteq> map ev_mid (iter_messages (py_hash ex_env2) ex_flat_conv)"
    using legacy_id_follows_interpreter_hash [OF a b c, of "py_hash ex_env" _ _ "py_hash ex_env2"
        ex_flat_conv] h
    by (simp only: f) simp
  have r: "map (\<lambda>ev. (ev_role ev, ev_text ev, ev_ts ev)) (iter_messages (py_hash ex_env) ex_flat_conv)
       = map (\<lambda>ev. (ev_role ev, ev_text ev, ev_ts ev)) (iter_messages (py_hash ex_env2) ex_flat_conv)"
    by (simp add: iter_messages_def legacy_event_def ex_flat_conv_def ex_anon_msg_def
        truthy_def Let_def ascii_def)
  have i1: "map ev_mid (iter_messages (py_hash ex_env) ex_flat_conv) = [ascii ''legacy-0'']"
    by (simp add: iter_messages_def legacy_event_def ex_flat_conv_def ex_anon_msg_def
        truthy_def Let_def ex_env_def str_int_def ascii_def)
  have i2: "map ev_mid (iter_messages (py_hash ex_env2) ex_flat_conv) = [ascii ''legacy-1'']"
    by (simp add: iter_messages_def legacy_event_def ex_flat_conv_def ex_anon_msg_def
        truthy_def Let_def ex_env_def ex_env2_def str_int_def ascii_def)
  show ?thesis using a d r i1 i2 by simp
qed

section \<open>The persisted registration date\<close>

lemma main_weekly_persists_filing_date:
  assumes "main_should_create today_date (Some last_date)"
  shows "main_weekly today_date True PageUrl (Some last_date)
           = (Filed (next_saturday last_date + 1), Some (next_saturday last_date + 1))"
  using assms by (simp add: main_weekly_def registration_date_of_def)

text \<open>
  C8 at a concrete input: the last registration is Wednesday 2025-09-24 (ordinal 739518)
  and today is Saturday 2025-09-27 (ordinal 739521); the next Saturday is 2025-09-27 and
  the Sunday following it 2025-09-28 (ordinal 739522). \<open>main\<close> of chatgpt\_to\_notion.py
  files and persists 2025-09-28; \<open>main\<close> of daily\_chatgpt\_summary.py files and persists
  today, 2025-09-27.
\<close>

theorem persisted_date_of_the_two_mains:
  "next_saturday 739518 + 1 = 739522
   \<and> main_weekly 739521 True PageUrl (Some 739518) = (Filed 739522, Some 739522)
   \<and> summary_main_weekly 739521 True PageUrl (Some 739518) = (Filed 739521, Some 739521)"
  by (simp add: main_weekly_def summary_main_weekly_def registration_date_of_def
      main_should_create_def next_saturday_def weekday_def)

end
